theory Spec2Isabelle
  imports Main "HOL-Library.Word"
begin

section \<open>Data model of src/index.ts\<close>

text \<open>
  A value of the TypeScript type \<open>Hex\<close> is a string; the type promises the prefix
  \<open>0x\<close> at compile time only, so the model keeps it a plain string. A
  \<open>Uint8Array\<close> is a list of 8-bit words. Strings are lists of 8-bit characters:
  every string the program builds is ASCII.
\<close>

type_synonym Hex = string
type_synonym byte = "8 word"
type_synonym bytes = "byte list"

record Key =
  publicKey :: Hex
  privateKey :: Hex

record StealthKey =
  viewingKey :: Key
  spendingKey :: Key

record StealthMetaPublicKey =
  viewingPublicKey :: Hex
  spendingPublicKey :: Hex

record StealthAddress =
  stealthPublicKey :: Hex
  ephemeralPublicKey :: Hex
  viewTag :: Hex

record Portions =
  portion1 :: string
  portion2 :: string
  lastByte :: string

text \<open>
  Every way an operation can stop without a result. \<open>MalformedSeed\<close> is the
  \<open>Error("Signature incorrectly generated or parsed")\<close> thrown by
  \<open>generateStealthKeyFromSignature\<close>; \<open>InvalidMetaAddressLength\<close> is the name the
  specification gives to a rejected meta-address (no statement of the source raises it);
  the others are the exceptions of the libraries and of the language:
  \<open>InvalidHexValue\<close> (hexToBytes at a character that is no digit), \<open>InvalidPointEncoding\<close> (ProjectivePoint.fromHex),
  \<open>ScalarOutOfRange\<close> (a private key outside 1 .. n - 1), \<open>SyntaxError\<close>
  (BigInt of a string that is no integer literal), \<open>RangeError\<close> (remainder by zero).
\<close>

datatype error =
    MalformedSeed
  | InvalidMetaAddressLength
  | InvalidHexValue
  | InvalidPointEncoding
  | ScalarOutOfRange
  | SyntaxError
  | RangeError

section \<open>The string operations of the language\<close>

text \<open>\<open>s.slice(start, fin)\<close>: a negative index counts from the end, both are clamped.\<close>

definition slice :: "string \<Rightarrow> int \<Rightarrow> int \<Rightarrow> string" where
  "slice s start fin =
     (let len = int (length s);
          from = (if start < 0 then max (len + start) 0 else min start len);
          to = (if fin < 0 then max (len + fin) 0 else min fin len)
      in take (nat (to - from)) (drop (nat from) s))"

text \<open>\<open>s.slice(start)\<close>: the end defaults to the length.\<close>

definition slice_from :: "string \<Rightarrow> int \<Rightarrow> string" where
  "slice_from s start = slice s start (int (length s))"

text \<open>\<open>s.substring(start, fin)\<close>: indices are clamped to 0 .. length and swapped if needed.\<close>

definition substring :: "string \<Rightarrow> int \<Rightarrow> int \<Rightarrow> string" where
  "substring s start fin =
     (let len = int (length s);
          finalStart = min (max start 0) len;
          finalEnd = min (max fin 0) len;
          from = min finalStart finalEnd;
          to = max finalStart finalEnd
      in take (nat (to - from)) (drop (nat from) s))"

text \<open>\<open>s.padStart(targetLength, "0")\<close>.\<close>

definition padStart :: "string \<Rightarrow> nat \<Rightarrow> char \<Rightarrow> string" where
  "padStart s targetLength c = replicate (targetLength - length s) c @ s"

text \<open>The sixteen digits, lower case, as \<open>toString(16)\<close> writes them.\<close>

definition hexchar :: "nat \<Rightarrow> char" where
  "hexchar d = ''0123456789abcdef'' ! d"

text \<open>The value of a hexadecimal digit in either case, \<open>None\<close> for any other character.\<close>

definition charCodeToBase16 :: "char \<Rightarrow> nat option" where
  "charCodeToBase16 c =
     (let k = (of_char c :: nat) in
      if 48 \<le> k \<and> k \<le> 57 then Some (k - 48)
      else if 65 \<le> k \<and> k \<le> 70 then Some (k - 55)
      else if 97 \<le> k \<and> k \<le> 102 then Some (k - 87)
      else None)"

text \<open>\<open>x.toString(16)\<close> of a BigInt: no leading zero, a minus sign when negative.\<close>

fun digits16 :: "nat \<Rightarrow> string" where
  "digits16 n = (if n < 16 then [hexchar n] else digits16 (n div 16) @ [hexchar (n mod 16)])"

declare digits16.simps [simp del]

definition toString16 :: "int \<Rightarrow> string" where
  "toString16 x = (if x < 0 then CHR ''-'' # digits16 (nat (- x)) else digits16 (nat x))"

text \<open>
  \<open>BigInt(s)\<close> for a string: white space is trimmed; the empty string is 0; a prefix
  \<open>0x\<close>, \<open>0o\<close> or \<open>0b\<close> (either case) selects the radix and takes no sign; otherwise
  a decimal literal with an optional sign. Anything else is a SyntaxError (\<open>None\<close>).
\<close>

definition isWhiteSpace :: "char \<Rightarrow> bool" where
  "isWhiteSpace c = ((of_char c :: nat) \<in> {9, 10, 11, 12, 13, 32, 160})"

definition trimString :: "string \<Rightarrow> string" where
  "trimString s = rev (dropWhile isWhiteSpace (rev (dropWhile isWhiteSpace s)))"

fun parseDigits :: "nat \<Rightarrow> nat \<Rightarrow> string \<Rightarrow> nat option" where
  "parseDigits radix acc [] = Some acc"
| "parseDigits radix acc (c # cs) =
     (case charCodeToBase16 c of
        None \<Rightarrow> None
      | Some d \<Rightarrow> if d < radix then parseDigits radix (acc * radix + d) cs else None)"

definition parseLiteral :: "nat \<Rightarrow> string \<Rightarrow> int option" where
  "parseLiteral radix ds = (if ds = [] then None else map_option int (parseDigits radix 0 ds))"

definition BigInt :: "string \<Rightarrow> int option" where
  "BigInt s =
     (let t = trimString s in
      if t = [] then Some 0
      else if take 2 t = ''0x'' \<or> take 2 t = ''0X'' then parseLiteral 16 (drop 2 t)
      else if take 2 t = ''0o'' \<or> take 2 t = ''0O'' then parseLiteral 8 (drop 2 t)
      else if take 2 t = ''0b'' \<or> take 2 t = ''0B'' then parseLiteral 2 (drop 2 t)
      else if hd t = CHR ''+'' then parseLiteral 10 (tl t)
      else if hd t = CHR ''-'' then map_option uminus (parseLiteral 10 (tl t))
      else parseLiteral 10 t)"

text \<open>\<open>a % b\<close> on BigInt: the sign of the dividend; a RangeError when \<open>b\<close> is zero.\<close>

definition js_rem :: "int \<Rightarrow> int \<Rightarrow> int option" where
  "js_rem a b = (if b = 0 then None else Some (sgn a * (\<bar>a\<bar> mod \<bar>b\<bar>)))"

section \<open>Hexadecimal conversion (viem)\<close>

text \<open>
  Modelled from the spec: viem's \<open>bytesToHex\<close> and \<open>hexToBytes\<close> are imported, not
  under src. Section 6 fixes the encoding: \<open>0x\<close> followed by two hexadecimal characters
  for each byte, the first byte first. \<open>hexToBytes\<close> drops the first two characters
  whatever they are, puts a \<open>0\<close> in front of an odd number of digits, and throws at a
  character that is no hexadecimal digit.
\<close>

definition hexes :: "byte \<Rightarrow> string" where
  "hexes w = [hexchar (unat w div 16), hexchar (unat w mod 16)]"

definition bytesToHex :: "bytes \<Rightarrow> Hex" where
  "bytesToHex bs = ''0x'' @ concat (map hexes bs)"

fun parsePairs :: "string \<Rightarrow> bytes option" where
  "parsePairs [] = Some []"
| "parsePairs [c] = None"
| "parsePairs (a # b # cs) =
     (case charCodeToBase16 a of
        None \<Rightarrow> None
      | Some nibbleLeft \<Rightarrow>
          (case charCodeToBase16 b of
             None \<Rightarrow> None
           | Some nibbleRight \<Rightarrow>
               map_option ((#) (of_nat (nibbleLeft * 16 + nibbleRight))) (parsePairs cs)))"

definition hexToBytes :: "Hex \<Rightarrow> bytes option" where
  "hexToBytes hex =
     (let hexString = slice_from hex 2
      in parsePairs (if odd (length hexString) then CHR ''0'' # hexString else hexString))"

text \<open>The big-endian number a byte array stands for.\<close>

definition b2n :: "bytes \<Rightarrow> int" where
  "b2n bs = foldl (\<lambda>acc w. acc * 256 + uint w) 0 bs"

section \<open>The curve, the hash and the address format\<close>

text \<open>
  The elliptic-curve library, the hash function and the chain's address format are
  external: the program is parameterised by them. \<open>'pt\<close> is the type of curve points.
  \<open>CURVE_n\<close> is the group order \<open>CURVE.n\<close>, \<open>BASE_multiply k\<close> the point \<open>k * G\<close>,
  \<open>Point_fromHex\<close> decodes a point from bytes or from a hexadecimal string without
  prefix (\<open>None\<close> when the library throws), \<open>Point_toRawBytes p isCompressed\<close> encodes
  it, \<open>keccak_256\<close> is the digest on bytes and \<open>publicKeyToAddress\<close> the conversion of
  an uncompressed public key to a chain address.
\<close>

datatype hex_or_bytes = Str string | U8 bytes

record 'pt curve =
  CURVE_n :: int
  BASE_multiply :: "int \<Rightarrow> 'pt"
  Point_fromHex :: "hex_or_bytes \<Rightarrow> 'pt option"
  Point_add :: "'pt \<Rightarrow> 'pt \<Rightarrow> 'pt"
  Point_multiply :: "'pt \<Rightarrow> int \<Rightarrow> 'pt"
  Point_toRawBytes :: "'pt \<Rightarrow> bool \<Rightarrow> bytes"
  keccak_256 :: "bytes \<Rightarrow> bytes"
  publicKeyToAddress :: "Hex \<Rightarrow> Hex"

text \<open>
  Modelled from the spec: the library's \<open>toPriv\<close>, \<open>ProjectivePoint.fromPrivateKey\<close>,
  \<open>getPublicKey\<close> and \<open>getSharedSecret\<close> are imported, not under src. Sections 3, 4
  and 9: a private key is a 32-byte big-endian scalar, valid in 1 .. n - 1; the public
  key is the scalar times the generator, encoded; the shared secret is the private key
  times the other party's public key, in compressed form.
\<close>

definition toPriv :: "'pt curve \<Rightarrow> bytes \<Rightarrow> int option" where
  "toPriv P k = (if length k = 32 \<and> 0 < b2n k \<and> b2n k < CURVE_n P then Some (b2n k) else None)"

definition fromPrivateKey :: "'pt curve \<Rightarrow> bytes \<Rightarrow> 'pt option" where
  "fromPrivateKey P k = map_option (BASE_multiply P) (toPriv P k)"

definition getPublicKey :: "'pt curve \<Rightarrow> bytes \<Rightarrow> bool \<Rightarrow> bytes option" where
  "getPublicKey P privKey isCompressed =
     map_option (\<lambda>p. Point_toRawBytes P p isCompressed) (fromPrivateKey P privKey)"

definition getSharedSecret :: "'pt curve \<Rightarrow> bytes \<Rightarrow> bytes \<Rightarrow> (error + bytes)" where
  "getSharedSecret P privA pubB =
     (case Point_fromHex P (U8 pubB) of
        None \<Rightarrow> Inl InvalidPointEncoding
      | Some p \<Rightarrow>
          (case toPriv P privA of
             None \<Rightarrow> Inl ScalarOutOfRange
           | Some a \<Rightarrow> Inr (Point_toRawBytes P (Point_multiply P p a) True)))"

text \<open>
  Modelled from the spec: viem's \<open>keccak256\<close>, \<open>isHex\<close>, \<open>toBytes\<close> and
  \<open>stringToBytes\<close> are imported, not under src. \<open>keccak256\<close> returns the 32-byte
  digest as a \<open>Hex\<close> string (section 2). It never throws: a string argument is
  converted with \<open>hexToBytes\<close> only where \<open>isHex\<close> accepts it, that is where it is
  \<open>0x\<close> followed by hexadecimal digits alone; any other string is hashed as its
  UTF-8 text, prefix included. \<open>hexToBytes\<close> cannot throw on a string that \<open>isHex\<close>
  accepts, so the branch \<open>None\<close> of \<open>toBytes\<close> is never taken.
\<close>

definition isHex :: "string \<Rightarrow> bool" where
  "isHex value =
     (take 2 value = ''0x'' \<and> list_all (\<lambda>c. charCodeToBase16 c \<noteq> None) (drop 2 value))"

definition utf8 :: "char \<Rightarrow> bytes" where
  "utf8 c =
     (let k = (of_char c :: nat) in
      if k < 128 then [of_nat k] else [of_nat (192 + k div 64), of_nat (128 + k mod 64)])"

definition stringToBytes :: "string \<Rightarrow> bytes" where
  "stringToBytes value = concat (map utf8 value)"

definition toBytes :: "string \<Rightarrow> bytes" where
  "toBytes value =
     (if isHex value then (case hexToBytes value of None \<Rightarrow> [] | Some b \<Rightarrow> b)
      else stringToBytes value)"

definition keccak256 :: "'pt curve \<Rightarrow> bytes \<Rightarrow> Hex" where
  "keccak256 P value = bytesToHex (keccak_256 P value)"

definition keccak256_hex :: "'pt curve \<Rightarrow> Hex \<Rightarrow> Hex" where
  "keccak256_hex P value = keccak256 P (toBytes value)"

section \<open>The operations of src/index.ts\<close>

definition extractPortions :: "Hex \<Rightarrow> Portions" where
  "extractPortions signature =
     (let startIndex = 2;
          len = 64
      in \<lparr> portion1 = slice signature startIndex (startIndex + len),
           portion2 = slice signature (startIndex + len) (startIndex + len + len),
           lastByte = slice_from signature (int (length signature) - 2) \<rparr>)"

definition generateStealthMetaAddressFromKeys :: "Hex \<Rightarrow> Hex \<Rightarrow> Hex" where
  "generateStealthMetaAddressFromKeys spendingPub viewingPub =
     ''0x'' @ slice_from spendingPub 2 @ slice_from viewingPub 2"

text \<open>The string that \<open>generateStealthKeyFromSignature\<close> compares with its input.\<close>

definition reassembled :: "Hex \<Rightarrow> Hex" where
  "reassembled signature =
     (let ps = extractPortions signature
      in ''0x'' @ portion1 ps @ portion2 ps @ lastByte ps)"

text \<open>
  \<open>hexToBytes\<close> of a digest cannot throw (lemma \<open>hexToBytes_keccak256_hex\<close>):
  after the guard only the range check of the private keys can stop the derivation
  (lemma \<open>generate_after_guard\<close>).
\<close>

definition generateStealthKeyFromSignature :: "'pt curve \<Rightarrow> Hex \<Rightarrow> error + StealthKey" where
  "generateStealthKeyFromSignature P signature =
     (let ps = extractPortions signature in
      if ''0x'' @ portion1 ps @ portion2 ps @ lastByte ps \<noteq> signature then Inl MalformedSeed
      else
       (case hexToBytes (keccak256_hex P (''0x'' @ portion1 ps)) of
          None \<Rightarrow> Inl InvalidHexValue
        | Some spendingPrivateKey \<Rightarrow>
       (case hexToBytes (keccak256_hex P (''0x'' @ portion2 ps)) of
          None \<Rightarrow> Inl InvalidHexValue
        | Some viewingPrivateKey \<Rightarrow>
       (case getPublicKey P spendingPrivateKey True of None \<Rightarrow> Inl ScalarOutOfRange
        | Some spendingPub \<Rightarrow>
       (case getPublicKey P viewingPrivateKey True of None \<Rightarrow> Inl ScalarOutOfRange
        | Some viewingPub \<Rightarrow>
          Inr \<lparr> viewingKey = \<lparr> publicKey = bytesToHex viewingPub,
                                privateKey = bytesToHex viewingPrivateKey \<rparr>,
                spendingKey = \<lparr> publicKey = bytesToHex spendingPub,
                                 privateKey = bytesToHex spendingPrivateKey \<rparr> \<rparr>)))))"

text \<open>
  \<open>parseKeysFromStealthMetaAddress\<close> has no \<open>throw\<close> and calls nothing that throws
  on a string: its only branch is \<open>Inr\<close>.
\<close>

definition parseKeysFromStealthMetaAddress :: "Hex \<Rightarrow> error + StealthMetaPublicKey" where
  "parseKeysFromStealthMetaAddress stealthMeta =
     Inr \<lparr> viewingPublicKey = ''0x'' @ slice_from stealthMeta 68,
           spendingPublicKey = ''0x'' @ slice stealthMeta 2 68 \<rparr>"

definition getViewTag :: "Hex \<Rightarrow> Hex" where
  "getViewTag hashSharedSecret = ''0x'' @ substring hashSharedSecret 2 4"

definition getStealthPublicKey :: "'pt curve \<Rightarrow> Hex \<Rightarrow> Hex \<Rightarrow> error + Hex" where
  "getStealthPublicKey P spendingPub hashSharedSecret =
     (case hexToBytes hashSharedSecret of None \<Rightarrow> Inl InvalidHexValue | Some hb \<Rightarrow>
     (case fromPrivateKey P hb of None \<Rightarrow> Inl ScalarOutOfRange
      | Some hashedSharedSecretPoint \<Rightarrow>
     (case Point_fromHex P (Str (slice_from spendingPub 2)) of
        None \<Rightarrow> Inl InvalidPointEncoding
      | Some sp \<Rightarrow>
        Inr (bytesToHex
              (Point_toRawBytes P (Point_add P sp hashedSharedSecretPoint) False)))))"

text \<open>
  \<open>generateStealthAddress\<close> draws the ephemeral private key from
  \<open>utils.randomPrivateKey()\<close>; the model takes the drawn key as an argument.
\<close>

definition generateStealthAddress ::
  "'pt curve \<Rightarrow> bytes \<Rightarrow> StealthMetaPublicKey \<Rightarrow> error + StealthAddress" where
  "generateStealthAddress P ephemeralPrivateKey stealthMeta =
     (case getPublicKey P ephemeralPrivateKey True of None \<Rightarrow> Inl ScalarOutOfRange
      | Some ephemeralPub \<Rightarrow>
     (case Point_fromHex P (Str (slice_from (viewingPublicKey stealthMeta) 2)) of
        None \<Rightarrow> Inl InvalidPointEncoding
      | Some vp \<Rightarrow>
     (case getSharedSecret P ephemeralPrivateKey (Point_toRawBytes P vp True) of
        Inl e \<Rightarrow> Inl e
      | Inr sharedSecret \<Rightarrow>
        (let hashSharedSecret = keccak256 P sharedSecret;
             tag = getViewTag hashSharedSecret
         in (case getStealthPublicKey P (spendingPublicKey stealthMeta) hashSharedSecret of
               Inl e \<Rightarrow> Inl e
             | Inr newStealthPublicKey \<Rightarrow>
                 Inr \<lparr> stealthPublicKey = publicKeyToAddress P newStealthPublicKey,
                       ephemeralPublicKey = bytesToHex ephemeralPub,
                       viewTag = tag \<rparr>)))))"

definition addPriv :: "'pt curve \<Rightarrow> int \<Rightarrow> int \<Rightarrow> int option" where
  "addPriv P a b = (let curveOrderBigInt = CURVE_n P in js_rem (a + b) curveOrderBigInt)"

definition computeStealthPrivateKey :: "'pt curve \<Rightarrow> StealthKey \<Rightarrow> Hex \<Rightarrow> error + Hex" where
  "computeStealthPrivateKey P stealthKey ephemeralPub =
     (case hexToBytes (privateKey (viewingKey stealthKey)) of None \<Rightarrow> Inl InvalidHexValue
      | Some vk \<Rightarrow>
     (case hexToBytes ephemeralPub of None \<Rightarrow> Inl InvalidHexValue | Some ep \<Rightarrow>
     (case getSharedSecret P vk ep of Inl e \<Rightarrow> Inl e | Inr sharedSecret \<Rightarrow>
       (let hashSharedSecret = keccak256 P sharedSecret in
     (case BigInt (privateKey (spendingKey stealthKey)) of None \<Rightarrow> Inl SyntaxError
      | Some spendingPrivateKeyBigInt \<Rightarrow>
     (case BigInt hashSharedSecret of None \<Rightarrow> Inl SyntaxError
      | Some hashedSecretBigInt \<Rightarrow>
     (case addPriv P spendingPrivateKeyBigInt hashedSecretBigInt of None \<Rightarrow> Inl RangeError
      | Some stealthPrivateKeyBigInt \<Rightarrow>
        Inr (''0x'' @ padStart (toString16 stealthPrivateKeyBigInt) 64 (CHR ''0'')))))))))"

definition checkStealthAddress ::
  "'pt curve \<Rightarrow> Hex \<Rightarrow> Hex \<Rightarrow> Hex \<Rightarrow> Hex \<Rightarrow> Hex \<Rightarrow> error + bool" where
  "checkStealthAddress P stealthAddress ephemeralPub spendingPub viewingPrivateKey tag =
     (case hexToBytes viewingPrivateKey of None \<Rightarrow> Inl InvalidHexValue | Some vk \<Rightarrow>
     (case hexToBytes ephemeralPub of None \<Rightarrow> Inl InvalidHexValue | Some ep \<Rightarrow>
     (case getSharedSecret P vk ep of Inl e \<Rightarrow> Inl e | Inr sharedSecret \<Rightarrow>
       (let hashSharedSecret = keccak256 P sharedSecret;
            computedViewTag = getViewTag hashSharedSecret
        in if computedViewTag \<noteq> tag then Inr False
           else (case getStealthPublicKey P spendingPub hashSharedSecret of
                   Inl e \<Rightarrow> Inl e
                 | Inr newStealthPublicKey \<Rightarrow>
                     Inr (stealthAddress = publicKeyToAddress P newStealthPublicKey))))))"

section \<open>Validity of keys and the laws of the curve\<close>

text \<open>
  The invariant of a key pair (section 3 of the specification): the private key is a
  \<open>Hex\<close> string of a valid scalar and the public key is the compressed encoding of
  that scalar times the generator, as \<open>generateStealthKeyFromSignature\<close> builds it.
\<close>

definition validKey :: "'pt curve \<Rightarrow> Key \<Rightarrow> bool" where
  "validKey P k =
     (take 2 (privateKey k) = ''0x'' \<and>
      (case hexToBytes (privateKey k) of
         None \<Rightarrow> False
       | Some priv \<Rightarrow>
           (case getPublicKey P priv True of
              None \<Rightarrow> False
            | Some pub \<Rightarrow> publicKey k = bytesToHex pub)))"

definition validStealthKey :: "'pt curve \<Rightarrow> StealthKey \<Rightarrow> bool" where
  "validStealthKey P b = (validKey P (viewingKey b) \<and> validKey P (spendingKey b))"

text \<open>
  What the protocol needs from the curve library, each a fact of secp256k1. Scalars
  range over 1 .. n - 1, the valid private keys. A public key is encoded in 33 bytes
  (compressed) and decoding an encoded public key gives the point back, from bytes and
  from the hexadecimal string without prefix.
\<close>

definition validScalar :: "'pt curve \<Rightarrow> int \<Rightarrow> bool" where
  "validScalar P k = (0 < k \<and> k < CURVE_n P)"

definition encoding_laws :: "'pt curve \<Rightarrow> bool" where
  "encoding_laws P =
     (\<forall>k. validScalar P k \<longrightarrow>
        length (Point_toRawBytes P (BASE_multiply P k) True) = 33 \<and>
        (\<forall>c. Point_fromHex P (U8 (Point_toRawBytes P (BASE_multiply P k) c))
                = Some (BASE_multiply P k) \<and>
             Point_fromHex P (Str (drop 2 (bytesToHex (Point_toRawBytes P (BASE_multiply P k) c))))
                = Some (BASE_multiply P k)))"

text \<open>Diffie-Hellman symmetry: \<open>b * (a * G) = a * (b * G)\<close>.\<close>

definition ecdh_law :: "'pt curve \<Rightarrow> bool" where
  "ecdh_law P =
     (\<forall>a b. validScalar P a \<and> validScalar P b \<longrightarrow>
        Point_multiply P (BASE_multiply P a) b = Point_multiply P (BASE_multiply P b) a)"

text \<open>
  \<open>a * G + b * G = ((a + b) mod n) * G\<close>. \<open>BASE_multiply\<close> is the
  multiplication of the group, so \<open>0 * G\<close> is the point at infinity, the sum of two
  opposite points; only \<open>toPriv\<close> restricts the scalars that are private keys.
\<close>

definition addition_law :: "'pt curve \<Rightarrow> bool" where
  "addition_law P =
     (\<forall>a b. validScalar P a \<and> validScalar P b \<longrightarrow>
        Point_add P (BASE_multiply P a) (BASE_multiply P b)
          = BASE_multiply P ((a + b) mod CURVE_n P))"

text \<open>The group order is positive and fits 256 bits.\<close>

definition order_law :: "'pt curve \<Rightarrow> bool" where
  "order_law P = (0 < CURVE_n P \<and> CURVE_n P \<le> 2 ^ 256)"

text \<open>
  The public key of a private key given as \<open>Hex\<close>, uncompressed, as an account is
  derived from a private key: \<open>bytesToHex(getPublicKey(hexToBytes(sk), false))\<close>.
\<close>

definition publicKeyOf :: "'pt curve \<Rightarrow> Hex \<Rightarrow> error + Hex" where
  "publicKeyOf P sk =
     (case hexToBytes sk of None \<Rightarrow> Inl InvalidHexValue | Some k \<Rightarrow>
     (case getPublicKey P k False of None \<Rightarrow> Inl ScalarOutOfRange
      | Some pub \<Rightarrow> Inr (bytesToHex pub)))"

section \<open>A small instance of the parameters\<close>

text \<open>
  The additive group of the integers modulo 251 with generator 1: a point is a
  residue, encoded in its last byte after the format byte 2 (compressed, 33 bytes) or 4
  (uncompressed, 65 bytes). The digest is a 32-byte scalar in 1 .. 250 and an address
  is \<open>0x\<close> and the 40 characters of the key that end its first coordinate. The
  laws above hold of it; it gives the theorems below inputs on which every hypothesis
  is met.
\<close>

definition toy_encode :: "int \<Rightarrow> bool \<Rightarrow> bytes" where
  "toy_encode p isCompressed =
     (if isCompressed then 2 # replicate 31 0 @ [word_of_int p]
      else 4 # replicate 31 0 @ [word_of_int p] @ replicate 32 0)"

definition toy_decode :: "bytes \<Rightarrow> int option" where
  "toy_decode bs =
     (if (length bs = 33 \<and> hd bs = 2) \<or> (length bs = 65 \<and> hd bs = 4)
      then Some (uint (bs ! 32)) else None)"

definition toy_fromHex :: "hex_or_bytes \<Rightarrow> int option" where
  "toy_fromHex v =
     (case v of
        U8 bs \<Rightarrow> toy_decode bs
      | Str h \<Rightarrow> (case parsePairs h of None \<Rightarrow> None | Some bs \<Rightarrow> toy_decode bs))"

definition toy_digest :: "bytes \<Rightarrow> bytes" where
  "toy_digest bs = replicate 31 0 @ [word_of_int (1 + b2n bs mod 250)]"

definition toyCurve :: "int curve" where
  "toyCurve =
     \<lparr> CURVE_n = 251,
       BASE_multiply = (\<lambda>k. k mod 251),
       Point_fromHex = toy_fromHex,
       Point_add = (\<lambda>p q. (p + q) mod 251),
       Point_multiply = (\<lambda>p k. (p * k) mod 251),
       Point_toRawBytes = toy_encode,
       keccak_256 = toy_digest,
       publicKeyToAddress = (\<lambda>h. ''0x'' @ take 40 (drop 28 h)) \<rparr>"

text \<open>
  A seed signature, the bundle derived from it, an ephemeral private key, and the
  meta-address and the stealth address they give on this instance.
\<close>

definition toySignature :: Hex where
  "toySignature = ''0x'' @ concat (replicate 32 ''1f'') @ concat (replicate 32 ''a3'') @ ''1b''"

definition toyEphemeral :: bytes where "toyEphemeral = replicate 31 0 @ [3]"

definition toyKeys :: StealthKey where
  "toyKeys =
     \<lparr> viewingKey =
         \<lparr> publicKey = ''0x020000000000000000000000000000000000000000000000000000000000000052'',
           privateKey = ''0x0000000000000000000000000000000000000000000000000000000000000052'' \<rparr>,
       spendingKey =
         \<lparr> publicKey = ''0x0200000000000000000000000000000000000000000000000000000000000000f8'',
           privateKey = ''0x00000000000000000000000000000000000000000000000000000000000000f8'' \<rparr> \<rparr>"

definition toyMeta :: StealthMetaPublicKey where
  "toyMeta =
     \<lparr> viewingPublicKey = ''0x020000000000000000000000000000000000000000000000000000000000000052'',
       spendingPublicKey = ''0x0200000000000000000000000000000000000000000000000000000000000000f8'' \<rparr>"

definition toyAddress :: StealthAddress where
  "toyAddress =
     \<lparr> stealthPublicKey = ''0x0000000000000000000000000000000000000074'',
       ephemeralPublicKey = ''0x020000000000000000000000000000000000000000000000000000000000000003'',
       viewTag = ''0x00'' \<rparr>"

section \<open>A second instance, with the order of secp256k1\<close>

text \<open>
  The additive group of the integers modulo the group order of secp256k1, with
  generator 1: a point is a residue, encoded in 32 bytes, first byte first, after the
  format byte 2 (compressed) or 4 (uncompressed, with a second coordinate 0). The
  digest of a compressed point is its 32 coordinate bytes in reverse order, so digests
  take every first byte, and some are not below the order. The laws of the curve hold
  of this instance too.
\<close>

definition secp256k1_n :: int where
  "secp256k1_n = 0xFFFFFFFFFFFFFFFFFFFFFFFFFFFFFFFEBAAEDCE6AF48A03BBFD25E8CD0364141"

definition n2b :: "int \<Rightarrow> bytes" where
  "n2b x = map (\<lambda>i. word_of_int (x div 256 ^ i)) (rev [0..<32])"

definition ring_encode :: "int \<Rightarrow> bool \<Rightarrow> bytes" where
  "ring_encode p isCompressed =
     (if isCompressed then 2 # n2b p else 4 # n2b p @ replicate 32 0)"

definition ring_decode :: "bytes \<Rightarrow> int option" where
  "ring_decode bs =
     (if (length bs = 33 \<and> hd bs = 2) \<or> (length bs = 65 \<and> hd bs = 4)
      then (let x = b2n (take 32 (tl bs)) in if x < secp256k1_n then Some x else None)
      else None)"

definition ring_fromHex :: "hex_or_bytes \<Rightarrow> int option" where
  "ring_fromHex v =
     (case v of
        U8 bs \<Rightarrow> ring_decode bs
      | Str h \<Rightarrow> (case parsePairs h of None \<Rightarrow> None | Some bs \<Rightarrow> ring_decode bs))"

definition ring_digest :: "bytes \<Rightarrow> bytes" where
  "ring_digest bs = rev (take 32 (tl bs @ replicate 32 0))"

definition ringCurve :: "int curve" where
  "ringCurve =
     \<lparr> CURVE_n = secp256k1_n,
       BASE_multiply = (\<lambda>k. k mod secp256k1_n),
       Point_fromHex = ring_fromHex,
       Point_add = (\<lambda>p q. (p + q) mod secp256k1_n),
       Point_multiply = (\<lambda>p k. (p * k) mod secp256k1_n),
       Point_toRawBytes = ring_encode,
       keccak_256 = ring_digest,
       publicKeyToAddress = (\<lambda>h. ''0x'' @ take 40 (drop 28 h)) \<rparr>"




section \<open>Slicing\<close>

lemma slice_nat: "slice s (int a) (int b) = take (b - a) (drop a s)"
  by (auto simp: slice_def Let_def min_def nat_diff_distrib')

lemma slice_from_nat: "slice_from s (int a) = drop a s"
  by (auto simp: slice_from_def slice_def Let_def min_def)

lemma slice_from_2: "slice_from s 2 = drop 2 s"
  using slice_from_nat [of s 2] by simp

lemma slice_from_68: "slice_from s 68 = drop 68 s"
  using slice_from_nat [of s 68] by simp

lemma slice_2_68: "slice s 2 68 = take 66 (drop 2 s)"
  using slice_nat [of s 2 68] by simp

lemma slice_2_66: "slice s 2 66 = take 64 (drop 2 s)"
  using slice_nat [of s 2 66] by simp

lemma slice_66_130: "slice s 66 130 = take 64 (drop 66 s)"
  using slice_nat [of s 66 130] by simp

lemma slice_from_last2: "slice_from s (int (length s) - 2) = drop (length s - 2) s"
  by (auto simp: slice_from_def slice_def Let_def min_def max_def nat_diff_distrib')

section \<open>The guard of the seed signature\<close>

lemma reassembled_eq:
  "reassembled s = ''0x'' @ take 64 (drop 2 s) @ take 64 (drop 66 s) @ drop (length s - 2) s"
  by (simp add: reassembled_def extractPortions_def Let_def slice_2_66 slice_66_130
      slice_from_last2)

lemma length_reassembled:
  "length (reassembled s) = 2 + min 64 (length s - 2) + min 64 (length s - 66) + min 2 (length s)"
  by (simp add: reassembled_eq min_def)

lemma reassembled_length_132:
  assumes "reassembled s = s"
  shows "length s = 132"
proof -
  from assms have "length (reassembled s) = length s" by simp
  then show ?thesis unfolding length_reassembled by (simp add: min_def split: if_splits)
qed

lemma split_132:
  assumes "length s = 132"
  shows "take 2 s @ take 64 (drop 2 s) @ take 64 (drop 66 s) @ drop 130 s = s"
proof -
  have a: "take 64 (drop 66 s) @ drop 130 s = drop 66 s"
    using append_take_drop_id [of 64 "drop 66 s"] by simp
  have b: "take 64 (drop 2 s) @ drop 66 s = drop 2 s"
    using append_take_drop_id [of 64 "drop 2 s"] by simp
  show ?thesis by (simp only: a b append_take_drop_id)
qed

lemma guard_iff: "reassembled s = s \<longleftrightarrow> length s = 132 \<and> take 2 s = ''0x''"
proof
  assume r: "reassembled s = s"
  then have l: "length s = 132" by (rule reassembled_length_132)
  from r have "take 2 (reassembled s) = take 2 s" by simp
  then have "take 2 s = ''0x''" by (simp add: reassembled_eq)
  with l show "length s = 132 \<and> take 2 s = ''0x''" by simp
next
  assume a: "length s = 132 \<and> take 2 s = ''0x''"
  then have "reassembled s = take 2 s @ take 64 (drop 2 s) @ take 64 (drop 66 s) @ drop 130 s"
    by (simp add: reassembled_eq)
  also have "\<dots> = s" using split_132 [of s] a by simp
  finally show "reassembled s = s" .
qed

lemma generate_guard_fails:
  "reassembled s \<noteq> s \<Longrightarrow> generateStealthKeyFromSignature P s = Inl MalformedSeed"
  by (simp add: generateStealthKeyFromSignature_def reassembled_def Let_def)

lemma generate_guard_passes:
  "reassembled s = s \<Longrightarrow> generateStealthKeyFromSignature P s \<noteq> Inl MalformedSeed"
  by (auto simp: generateStealthKeyFromSignature_def reassembled_def Let_def
      split: option.splits)

section \<open>Hexadecimal digits and bytes\<close>

lemma charCodeToBase16_hexchar: 
  assumes "d < 16" shows "charCodeToBase16 (hexchar d) = Some d"
proof -
  from assms consider "d = 0" | "d = 1" | "d = 2" | "d = 3" | "d = 4" | "d = 5" | "d = 6"
    | "d = 7" | "d = 8" | "d = 9" | "d = 10" | "d = 11" | "d = 12" | "d = 13" | "d = 14"
    | "d = 15" by atomize_elim arith
  then show ?thesis by cases (simp_all add: hexchar_def charCodeToBase16_def)
qed

lemma charCodeToBase16_bound: "charCodeToBase16 c = Some d \<Longrightarrow> d < 16"
  by (auto simp: charCodeToBase16_def Let_def split: if_splits)

lemma charCodeToBase16_not_space: "charCodeToBase16 c = Some d \<Longrightarrow> \<not> isWhiteSpace c"
  by (auto simp: charCodeToBase16_def isWhiteSpace_def Let_def split: if_splits)

lemma byte_of_nibbles: "(of_nat (unat w div 16 * 16 + unat w mod 16) :: byte) = w"
  by simp

lemma unat_byte_div: "unat (w :: byte) div 16 < 16"
proof -
  have "unat w < 256" using unsigned_less [of w, where ?'a = nat] by simp
  then show ?thesis by simp
qed

lemma parsePairs_hexes: "parsePairs (hexes w @ cs) = map_option ((#) w) (parsePairs cs)"
  by (simp add: hexes_def charCodeToBase16_hexchar unat_byte_div)

lemma parsePairs_concat_hexes: "parsePairs (concat (map hexes bs)) = Some bs"
  by (induction bs) (simp_all add: parsePairs_hexes)

lemma length_concat_hexes: "length (concat (map hexes bs)) = 2 * length bs"
  by (induction bs) (simp_all add: hexes_def)

lemma length_bytesToHex: "length (bytesToHex bs) = 2 + 2 * length bs"
  by (simp add: bytesToHex_def length_concat_hexes)

lemma take2_bytesToHex: "take 2 (bytesToHex bs) = ''0x''"
  by (simp add: bytesToHex_def)

lemma drop2_bytesToHex: "drop 2 (bytesToHex bs) = concat (map hexes bs)"
  by (simp add: bytesToHex_def)

lemma hexToBytes_bytesToHex: "hexToBytes (bytesToHex bs) = Some bs"
  by (simp add: hexToBytes_def slice_from_2 drop2_bytesToHex length_concat_hexes
      parsePairs_concat_hexes)

section \<open>Numbers read from digits\<close>

lemma uint_byte_of_nat: "k < 256 \<Longrightarrow> uint (of_nat k :: byte) = int k"
proof -
  assume "k < 256"
  then have "unat (of_nat k :: byte) = k" by (simp add: unat_of_nat)
  then show ?thesis by (metis uint_nat)
qed

lemma parsePairs_value:
  "parsePairs ds = Some bs \<Longrightarrow>
   map_option int (parseDigits 16 acc ds) = Some (foldl (\<lambda>a w. a * 256 + uint w) (int acc) bs)"
proof (induction ds arbitrary: acc bs rule: parsePairs.induct)
  case 1
  then show ?case by simp
next
  case (2 c)
  then show ?case by simp
next
  case (3 a b cs)
  from "3.prems" obtain x y bs' where
    x: "charCodeToBase16 a = Some x" and y: "charCodeToBase16 b = Some y" and
    cs: "parsePairs cs = Some bs'" and bs: "bs = of_nat (x * 16 + y) # bs'"
    by (auto split: option.splits)
  define k where "k = x * 16 + y"
  have xb: "x < 16" and yb: "y < 16"
    using x y by (auto dest: charCodeToBase16_bound)
  then have kb: "k < 256" by (simp add: k_def)
  have ih: "map_option int (parseDigits 16 ((acc * 16 + x) * 16 + y) cs)
              = Some (foldl (\<lambda>a w. a * 256 + uint w) (int ((acc * 16 + x) * 16 + y)) bs')"
    using "3.IH" [OF x y cs] .
  have e: "int ((acc * 16 + x) * 16 + y) = int acc * 256 + int k" by (simp add: k_def)
  have l: "parseDigits 16 acc (a # b # cs) = parseDigits 16 ((acc * 16 + x) * 16 + y) cs"
    using x y xb yb by simp
  have r: "foldl (\<lambda>a w. a * 256 + uint w) (int acc) bs
             = foldl (\<lambda>a w. a * 256 + uint w) (int acc * 256 + int k) bs'"
    unfolding bs k_def [symmetric] by (simp add: uint_byte_of_nat [OF kb])
  show ?case unfolding l r e [symmetric] by (rule ih)
qed

lemma parsePairs_digits:
  "parsePairs ds = Some bs \<Longrightarrow> c \<in> set ds \<Longrightarrow> \<exists>d. charCodeToBase16 c = Some d"
  by (induction ds arbitrary: bs rule: parsePairs.induct) (auto split: option.splits)

lemma parsePairs_length: "parsePairs ds = Some bs \<Longrightarrow> length ds = 2 * length bs"
  by (induction ds arbitrary: bs rule: parsePairs.induct) (auto split: option.splits)

lemma parseDigits_digits:
  "parseDigits r acc ds = Some v \<Longrightarrow> c \<in> set ds \<Longrightarrow> \<exists>d. charCodeToBase16 c = Some d"
  by (induction ds arbitrary: acc) (auto split: option.splits if_splits)

lemma parsePairs_exists:
  "even (length ds) \<Longrightarrow> parseDigits 16 acc ds = Some v \<Longrightarrow> \<exists>bs. parsePairs ds = Some bs"
  by (induction ds arbitrary: acc v rule: parsePairs.induct)
     (auto split: option.splits if_splits)

lemma parseDigits_append:
  "parseDigits r acc (xs @ ys) =
     (case parseDigits r acc xs of None \<Rightarrow> None | Some v \<Rightarrow> parseDigits r v ys)"
  by (induction xs arbitrary: acc) (auto split: option.splits)

lemma parseDigits_zeros: "parseDigits 16 0 (replicate k (CHR ''0'') @ ds) = parseDigits 16 0 ds"
  by (induction k) (simp_all add: charCodeToBase16_def)

lemma parseDigits_digits16: "parseDigits 16 0 (digits16 x) = Some x"
proof (induction x rule: digits16.induct)
  case (1 n)
  show ?case
  proof (cases "n < 16")
    case True
    then show ?thesis
      by (subst digits16.simps) (simp add: charCodeToBase16_hexchar)
  next
    case False
    then have ih: "parseDigits 16 0 (digits16 (n div 16)) = Some (n div 16)"
      using 1 by simp
    have "n mod 16 < 16" by simp
    then show ?thesis using False ih
      by (subst digits16.simps) (simp add: parseDigits_append charCodeToBase16_hexchar)
  qed
qed

lemma length_digits16: "0 < k \<Longrightarrow> x < 16 ^ k \<Longrightarrow> length (digits16 x) \<le> k"
proof (induction x arbitrary: k rule: digits16.induct)
  case (1 n)
  show ?case
  proof (cases "n < 16")
    case True
    then show ?thesis using "1.prems" by (subst digits16.simps) simp
  next
    case False
    obtain j where k: "k = Suc j" using "1.prems"(1) by (cases k) auto
    have j: "0 < j" using False "1.prems"(2) k by (cases j) auto
    have "n div 16 < 16 ^ j" using "1.prems"(2) k
      by (simp add: less_mult_imp_div_less mult.commute)
    then have "length (digits16 (n div 16)) \<le> j" using "1.IH" [OF False j] by simp
    then show ?thesis using False k by (subst digits16.simps) simp
  qed
qed

lemma digits16_nonempty: "digits16 x \<noteq> []"
  by (subst digits16.simps) simp

section \<open>BigInt on Hex strings\<close>

lemma not_space_0: "\<not> isWhiteSpace (CHR ''0'')" and not_space_x: "\<not> isWhiteSpace (CHR ''x'')"
  by (simp_all add: isWhiteSpace_def)

text \<open>Trimming a string that starts with 0x leaves the prefix in place.\<close>

lemma trimString_0x: "\<exists>r. trimString (''0x'' @ ds) = ''0x'' @ r \<and> set r \<subseteq> set ds"
proof -
  have a: "dropWhile isWhiteSpace (''0x'' @ ds) = ''0x'' @ ds" by (simp add: not_space_0)
  have b: "rev (''0x'' @ ds) = rev ds @ ''x0''" by simp
  obtain ys where ys: "dropWhile isWhiteSpace (rev ds @ ''x0'') = ys @ ''x0''"
    and sub: "set ys \<subseteq> set ds"
  proof (cases "\<forall>c\<in>set (rev ds). isWhiteSpace c")
    case True
    then have "dropWhile isWhiteSpace (rev ds @ ''x0'') = dropWhile isWhiteSpace ''x0''"
      by (intro dropWhile_append2) auto
    then have "dropWhile isWhiteSpace (rev ds @ ''x0'') = [] @ ''x0''"
      by (simp add: not_space_x)
    then show ?thesis using that [of "[]"] by simp
  next
    case False
    then have "dropWhile isWhiteSpace (rev ds @ ''x0'') = dropWhile isWhiteSpace (rev ds) @ ''x0''"
      by (auto simp: dropWhile_append1)
    moreover have "set (dropWhile isWhiteSpace (rev ds)) \<subseteq> set ds"
      using set_dropWhileD by fastforce
    ultimately show ?thesis using that by blast
  qed
  have "trimString (''0x'' @ ds) = ''0x'' @ rev ys"
    unfolding trimString_def a b ys by simp
  then show ?thesis using sub by auto
qed

lemma trimString_id:
  assumes "\<forall>c\<in>set ds. \<not> isWhiteSpace c"
  shows "trimString (''0x'' @ ds) = ''0x'' @ ds"
proof -
  have "\<forall>c\<in>set (''0x'' @ ds). \<not> isWhiteSpace c"
    using assms by (simp add: not_space_0 not_space_x)
  then have n: "\<And>xs. (\<forall>c\<in>set xs. \<not> isWhiteSpace c) \<Longrightarrow> dropWhile isWhiteSpace xs = xs"
    by (metis dropWhile_eq_self_iff hd_in_set)
  have 1: "dropWhile isWhiteSpace (''0x'' @ ds) = ''0x'' @ ds"
    by (simp add: not_space_0)
  have 2: "dropWhile isWhiteSpace (rev (''0x'' @ ds)) = rev (''0x'' @ ds)"
    by (rule n) (use assms in \<open>simp add: not_space_0 not_space_x\<close>)
  show ?thesis unfolding trimString_def 1 2 by simp
qed

lemma BigInt_0x_trimmed:
  assumes "trimString (''0x'' @ ds) = ''0x'' @ r"
  shows "BigInt (''0x'' @ ds) = parseLiteral 16 r"
  using assms by (simp add: BigInt_def Let_def)

lemma BigInt_Hex_nonneg:
  assumes "take 2 s = ''0x''" and "BigInt s = Some a"
  shows "0 \<le> a"
proof -
  have s: "s = ''0x'' @ drop 2 s" using assms(1) append_take_drop_id [of 2 s] by simp
  obtain r where r: "trimString (''0x'' @ drop 2 s) = ''0x'' @ r"
    using trimString_0x by blast
  have "BigInt s = parseLiteral 16 r" using BigInt_0x_trimmed [OF r] s by simp
  then show ?thesis using assms(2)
    by (cases "parseDigits 16 0 r") (auto simp: parseLiteral_def split: if_splits)
qed

lemma BigInt_0x_digits:
  assumes "parseDigits 16 0 ds = Some v" and "ds \<noteq> []"
  shows "BigInt (''0x'' @ ds) = Some (int v)"
proof -
  have "\<forall>c\<in>set ds. \<not> isWhiteSpace c"
    using parseDigits_digits [OF assms(1)] charCodeToBase16_not_space by blast
  then have "trimString (''0x'' @ ds) = ''0x'' @ ds" by (rule trimString_id)
  then have "BigInt (''0x'' @ ds) = parseLiteral 16 ds" by (rule BigInt_0x_trimmed)
  then show ?thesis using assms by (simp add: parseLiteral_def)
qed

lemma b2n_parsePairs:
  assumes "parsePairs ds = Some bs"
  shows "parseDigits 16 0 ds = Some (nat (b2n bs))" and "0 \<le> b2n bs"
proof -
  have "map_option int (parseDigits 16 0 ds) = Some (b2n bs)"
    using parsePairs_value [OF assms, of 0] by (simp add: b2n_def)
  then obtain v where v: "parseDigits 16 0 ds = Some v" and e: "int v = b2n bs" by auto
  show "parseDigits 16 0 ds = Some (nat (b2n bs))" using v e by (simp flip: e)
  show "0 \<le> b2n bs" by (simp flip: e)
qed

text \<open>On a Hex string, BigInt reads the number that hexToBytes reads big-endian.\<close>

lemma BigInt_hexToBytes:
  assumes p: "take 2 s = ''0x''" and h: "hexToBytes s = Some bs" and ne: "bs \<noteq> []"
  shows "BigInt s = Some (b2n bs)"
proof -
  define ds where "ds = drop 2 s"
  have s: "s = ''0x'' @ ds" using p append_take_drop_id [of 2 s] by (simp add: ds_def)
  have pp: "parsePairs (if odd (length ds) then CHR ''0'' # ds else ds) = Some bs"
    using h by (simp only: hexToBytes_def slice_from_2 Let_def ds_def [symmetric])
  have v: "parseDigits 16 0 ds = Some (nat (b2n bs))"
  proof (cases "odd (length ds)")
    case True
    then have "parsePairs (CHR ''0'' # ds) = Some bs" using pp by simp
    then have "parseDigits 16 0 (CHR ''0'' # ds) = Some (nat (b2n bs))"
      by (rule b2n_parsePairs(1))
    then show ?thesis by (simp add: charCodeToBase16_def)
  next
    case False
    then show ?thesis using pp b2n_parsePairs(1) by simp
  qed
  have "ds \<noteq> []" using pp ne by (auto split: if_splits)
  then have "BigInt s = Some (int (nat (b2n bs)))" using BigInt_0x_digits [OF v] s by simp
  moreover have "0 \<le> b2n bs" using pp b2n_parsePairs(2) by blast
  ultimately show ?thesis by simp
qed

lemma BigInt_bytesToHex: "bs \<noteq> [] \<Longrightarrow> BigInt (bytesToHex bs) = Some (b2n bs)"
  by (rule BigInt_hexToBytes) (simp_all add: take2_bytesToHex hexToBytes_bytesToHex)

text \<open>The 64-digit rendering of a scalar below 2 ^ 256 and what it decodes to.\<close>

lemma scalar_hex:
  assumes "0 \<le> x" and "x < 2 ^ 256"
  defines "sk \<equiv> ''0x'' @ padStart (toString16 x) 64 (CHR ''0'')"
  shows "length sk = 66"
    and "\<exists>bs. hexToBytes sk = Some bs \<and> length bs = 32 \<and> b2n bs = x"
    and "BigInt sk = Some x"
proof -
  define ds where "ds = padStart (toString16 x) 64 (CHR ''0'')"
  have t: "toString16 x = digits16 (nat x)" using assms(1) by (simp add: toString16_def)
  have "nat x < 2 ^ 256" using assms(1,2) by (simp add: nat_less_iff)
  then have "nat x < 16 ^ 64" by simp
  then have len: "length (digits16 (nat x)) \<le> 64" by (intro length_digits16) simp_all
  then have l: "length ds = 64" by (simp add: ds_def padStart_def t)
  have v: "parseDigits 16 0 ds = Some (nat x)"
    by (simp add: ds_def padStart_def t parseDigits_zeros parseDigits_digits16)
  have sk: "sk = ''0x'' @ ds" by (simp add: sk_def ds_def)
  show "length sk = 66" using l by (simp add: sk)
  obtain bs where bs: "parsePairs ds = Some bs"
    using parsePairs_exists [OF _ v] l by auto
  have lb: "length bs = 32" using parsePairs_length [OF bs] l by simp
  have "parseDigits 16 0 ds = Some (nat (b2n bs))" and "0 \<le> b2n bs"
    using b2n_parsePairs [OF bs] by simp_all
  then have val: "b2n bs = x" using v assms(1) by simp
  have "hexToBytes sk = Some bs" using bs l by (simp add: hexToBytes_def slice_from_2 sk)
  then show "\<exists>bs. hexToBytes sk = Some bs \<and> length bs = 32 \<and> b2n bs = x"
    using lb val by blast
  have "ds \<noteq> []" using l by auto
  then show "BigInt sk = Some x" using BigInt_0x_digits [OF v] assms(1) by (simp add: sk)
qed

section \<open>The hash of a string\<close>

lemma parsePairs_of_digits:
  "even (length ds) \<Longrightarrow> \<forall>c\<in>set ds. charCodeToBase16 c \<noteq> None \<Longrightarrow> \<exists>bs. parsePairs ds = Some bs"
  by (induction ds rule: parsePairs.induct) auto

lemma hexToBytes_isHex:
  assumes "isHex s"
  shows "\<exists>b. hexToBytes s = Some b"
proof -
  let ?ds = "drop 2 s"
  let ?p = "if odd (length ?ds) then CHR ''0'' # ?ds else ?ds"
  have d: "\<forall>c\<in>set ?ds. charCodeToBase16 c \<noteq> None" using assms by (simp add: isHex_def list_all_iff)
  have "charCodeToBase16 (CHR ''0'') \<noteq> None" by (simp add: charCodeToBase16_def)
  then have "\<forall>c\<in>set ?p. charCodeToBase16 c \<noteq> None" using d by auto
  moreover have "even (length ?p)" by simp
  ultimately have "\<exists>bs. parsePairs ?p = Some bs" by (rule parsePairs_of_digits [rotated])
  then show ?thesis by (simp only: hexToBytes_def slice_from_2 Let_def)
qed

lemma isHex_hexToBytes:
  assumes "hexToBytes (''0x'' @ ds) = Some b"
  shows "isHex (''0x'' @ ds)"
proof -
  let ?p = "if odd (length ds) then CHR ''0'' # ds else ds"
  have "parsePairs ?p = Some b" using assms by (simp add: hexToBytes_def slice_from_2 Let_def)
  then have "\<forall>c\<in>set ?p. charCodeToBase16 c \<noteq> None" using parsePairs_digits by fastforce
  then have "\<forall>c\<in>set ds. charCodeToBase16 c \<noteq> None" by (auto split: if_splits)
  then show ?thesis by (simp add: isHex_def list_all_iff)
qed

lemma toBytes_hex: "hexToBytes (''0x'' @ ds) = Some b \<Longrightarrow> toBytes (''0x'' @ ds) = b"
  using isHex_hexToBytes [of ds b] by (simp add: toBytes_def)

lemma hexToBytes_keccak256_hex:
  "hexToBytes (keccak256_hex P s) = Some (keccak_256 P (toBytes s))"
  by (simp add: keccak256_hex_def keccak256_def hexToBytes_bytesToHex)

text \<open>After the guard only the range check of the private keys can stop the derivation.\<close>

lemma generate_after_guard:
  assumes "reassembled s = s"
  shows "generateStealthKeyFromSignature P s =
     (let sk = keccak_256 P (toBytes (''0x'' @ portion1 (extractPortions s)));
          vk = keccak_256 P (toBytes (''0x'' @ portion2 (extractPortions s)))
      in case getPublicKey P sk True of None \<Rightarrow> Inl ScalarOutOfRange | Some sp \<Rightarrow>
        (case getPublicKey P vk True of None \<Rightarrow> Inl ScalarOutOfRange | Some vp \<Rightarrow>
           Inr \<lparr> viewingKey = \<lparr> publicKey = bytesToHex vp, privateKey = bytesToHex vk \<rparr>,
                 spendingKey = \<lparr> publicKey = bytesToHex sp, privateKey = bytesToHex sk \<rparr> \<rparr>))"
  using assms [unfolded reassembled_def Let_def]
  unfolding generateStealthKeyFromSignature_def Let_def hexToBytes_keccak256_hex
  by (simp split: option.splits)

lemma z_portions:
  "portion1 (extractPortions (''0x'' @ replicate 130 (CHR ''z''))) = replicate 64 (CHR ''z'')"
  "portion2 (extractPortions (''0x'' @ replicate 130 (CHR ''z''))) = replicate 64 (CHR ''z'')"
  by (simp_all add: extractPortions_def Let_def slice_2_66 slice_66_130)

lemma z_not_hex: "\<not> isHex (''0x'' @ replicate n (CHR ''z'')) \<longleftrightarrow> n \<noteq> 0"
  by (auto simp: isHex_def list_all_iff charCodeToBase16_def)



section \<open>The laws hold of the small instance\<close>

lemma toy_order: "order_law toyCurve"
  by (simp add: order_law_def toyCurve_def)

lemma toy_decode_encode:
  assumes "0 \<le> p" and "p < 251"
  shows "toy_decode (toy_encode p c) = Some p"
proof -
  have u: "uint (word_of_int p :: byte) = p"
    using assms by (simp add: uint_word_of_int)
  show ?thesis
    by (simp add: toy_decode_def toy_encode_def nth_append u)
qed

lemma toy_encoding: "encoding_laws toyCurve"
  unfolding encoding_laws_def validScalar_def
proof (intro allI impI)
  fix k :: int
  assume "0 < k \<and> k < CURVE_n toyCurve"
  then have k: "0 \<le> k" "k < 251" by (simp_all add: toyCurve_def)
  then have g: "BASE_multiply toyCurve k = k" by (simp add: toyCurve_def)
  have l: "length (toy_encode k True) = 33" by (simp add: toy_encode_def)
  have d: "toy_fromHex (U8 (toy_encode k c)) = Some k" for c
    by (simp add: toy_fromHex_def toy_decode_encode [OF k])
  have h: "toy_fromHex (Str (drop 2 (bytesToHex (toy_encode k c)))) = Some k" for c
    by (simp add: toy_fromHex_def drop2_bytesToHex parsePairs_concat_hexes
        toy_decode_encode [OF k])
  show "length (Point_toRawBytes toyCurve (BASE_multiply toyCurve k) True) = 33 \<and>
        (\<forall>c. Point_fromHex toyCurve (U8 (Point_toRawBytes toyCurve (BASE_multiply toyCurve k) c))
               = Some (BASE_multiply toyCurve k) \<and>
             Point_fromHex toyCurve
               (Str (drop 2 (bytesToHex (Point_toRawBytes toyCurve (BASE_multiply toyCurve k) c))))
               = Some (BASE_multiply toyCurve k))"
    unfolding g using l d h by (simp add: toyCurve_def)
qed

lemma toy_ecdh: "ecdh_law toyCurve"
  by (simp add: ecdh_law_def toyCurve_def mod_mult_right_eq mult.commute)

lemma toy_addition: "addition_law toyCurve"
  by (simp add: addition_law_def toyCurve_def mod_add_eq)

section \<open>The laws hold of the second instance\<close>

lemma b2n_n2b_acc:
  fixes x acc :: int
  shows "foldl (\<lambda>a w. a * 256 + uint w) acc
     (map (\<lambda>i. word_of_int (x div 256 ^ i) :: byte) (rev [0..<k]))
   = acc * 256 ^ k + x mod 256 ^ k"
proof (induction k arbitrary: acc)
  case 0
  then show ?case by simp
next
  case (Suc k)
  have u: "uint (word_of_int (x div 256 ^ k) :: byte) = x div 256 ^ k mod 256"
    by (simp add: uint_word_of_int)
  have m: "x mod 256 ^ Suc k = 256 ^ k * (x div 256 ^ k mod 256) + x mod 256 ^ k"
    using zmod_zmult2_eq [of 256 x "256 ^ k"] by (simp add: mult.commute)
  have "foldl (\<lambda>a w. a * 256 + uint w) acc
          (map (\<lambda>i. word_of_int (x div 256 ^ i) :: byte) (rev [0..<Suc k]))
        = (acc * 256 + x div 256 ^ k mod 256) * 256 ^ k + x mod 256 ^ k"
    by (simp add: Suc.IH u)
  also have "\<dots> = acc * 256 ^ Suc k + x mod 256 ^ Suc k"
    unfolding m by (simp add: algebra_simps)
  finally show ?case .
qed

lemma b2n_n2b: "0 \<le> x \<Longrightarrow> x < 2 ^ 256 \<Longrightarrow> b2n (n2b x) = x"
proof -
  assume "0 \<le> x" and "x < 2 ^ 256"
  then have "x mod 256 ^ 32 = x" by simp
  then show ?thesis using b2n_n2b_acc [where acc = 0 and x = x and k = 32] by (simp add: b2n_def n2b_def)
qed

lemma length_n2b: "length (n2b x) = 32"
  by (simp add: n2b_def)

lemma ring_order: "order_law ringCurve"
  by (simp add: order_law_def ringCurve_def secp256k1_n_def)

lemma ring_decode_encode:
  assumes "0 \<le> p" and "p < secp256k1_n"
  shows "ring_decode (ring_encode p c) = Some p"
proof -
  have "p < 2 ^ 256" using assms(2) by (simp add: secp256k1_n_def)
  then have b: "b2n (n2b p) = p" using assms(1) by (simp add: b2n_n2b)
  show ?thesis
    using assms(2) by (simp add: ring_decode_def ring_encode_def length_n2b b)
qed

lemma ring_encoding: "encoding_laws ringCurve"
  unfolding encoding_laws_def validScalar_def
proof (intro allI impI)
  fix k :: int
  assume "0 < k \<and> k < CURVE_n ringCurve"
  then have k: "0 \<le> k" "k < secp256k1_n" by (simp_all add: ringCurve_def)
  then have g: "BASE_multiply ringCurve k = k" by (simp add: ringCurve_def)
  have l: "length (ring_encode k True) = 33" by (simp add: ring_encode_def length_n2b)
  have d: "ring_fromHex (U8 (ring_encode k c)) = Some k" for c
    by (simp add: ring_fromHex_def ring_decode_encode [OF k])
  have h: "ring_fromHex (Str (drop 2 (bytesToHex (ring_encode k c)))) = Some k" for c
    by (simp add: ring_fromHex_def drop2_bytesToHex parsePairs_concat_hexes
        ring_decode_encode [OF k])
  show "length (Point_toRawBytes ringCurve (BASE_multiply ringCurve k) True) = 33 \<and>
        (\<forall>c. Point_fromHex ringCurve (U8 (Point_toRawBytes ringCurve (BASE_multiply ringCurve k) c))
               = Some (BASE_multiply ringCurve k) \<and>
             Point_fromHex ringCurve
               (Str (drop 2 (bytesToHex (Point_toRawBytes ringCurve (BASE_multiply ringCurve k) c))))
               = Some (BASE_multiply ringCurve k))"
    unfolding g using l d h by (simp add: ringCurve_def)
qed

lemma ring_ecdh: "ecdh_law ringCurve"
  by (simp add: ecdh_law_def ringCurve_def mod_mult_right_eq mult.commute)

lemma ring_addition: "addition_law ringCurve"
  by (simp add: addition_law_def ringCurve_def mod_add_eq)

section \<open>Keys, shared secrets and the steps of the protocol\<close>

lemma js_rem_nonneg: "0 \<le> x \<Longrightarrow> 0 < n \<Longrightarrow> js_rem x n = Some (x mod n)"
  by (cases "x = 0") (simp_all add: js_rem_def)

lemma parse_generate:
  assumes "length s = 68" and "take 2 s = ''0x''" and "take 2 v = ''0x''"
  shows "parseKeysFromStealthMetaAddress (generateStealthMetaAddressFromKeys s v)
           = Inr \<lparr> viewingPublicKey = v, spendingPublicKey = s \<rparr>"
proof -
  have s: "''0x'' @ drop 2 s = s" using assms(2) append_take_drop_id [of 2 s] by simp
  have v: "''0x'' @ drop 2 v = v" using assms(3) append_take_drop_id [of 2 v] by simp
  show ?thesis using assms(1)
    by (simp add: parseKeysFromStealthMetaAddress_def generateStealthMetaAddressFromKeys_def
        slice_from_68 slice_2_68 slice_from_2 s [simplified] v [simplified])
qed

lemma toPriv_SomeD:
  assumes "toPriv P k = Some a"
  shows "validScalar P a" and "a = b2n k" and "length k = 32"
  using assms by (auto simp: toPriv_def validScalar_def split: if_splits)

lemma getPublicKey_SomeD:
  assumes "getPublicKey P k c = Some pub"
  obtains a where "toPriv P k = Some a" and "pub = Point_toRawBytes P (BASE_multiply P a) c"
  using assms by (auto simp: getPublicKey_def fromPrivateKey_def)

lemma getPublicKey_toPriv:
  "toPriv P k = Some a \<Longrightarrow> getPublicKey P k c = Some (Point_toRawBytes P (BASE_multiply P a) c)"
  by (simp add: getPublicKey_def fromPrivateKey_def)

lemma validKeyD:
  assumes "validKey P k"
  obtains priv a where "take 2 (privateKey k) = ''0x''"
    and "hexToBytes (privateKey k) = Some priv"
    and "toPriv P priv = Some a"
    and "publicKey k = bytesToHex (Point_toRawBytes P (BASE_multiply P a) True)"
proof -
  from assms obtain priv pub where 1: "take 2 (privateKey k) = ''0x''"
    and 2: "hexToBytes (privateKey k) = Some priv"
    and 3: "getPublicKey P priv True = Some pub" and 4: "publicKey k = bytesToHex pub"
    by (auto simp: validKey_def split: option.splits)
  from 3 obtain a where "toPriv P priv = Some a"
    and "pub = Point_toRawBytes P (BASE_multiply P a) True"
    by (rule getPublicKey_SomeD)
  then show ?thesis using that 1 2 4 by blast
qed

lemma encoded_key:
  assumes "encoding_laws P" and "validScalar P a"
  shows "length (Point_toRawBytes P (BASE_multiply P a) True) = 33"
    and "Point_fromHex P (U8 (Point_toRawBytes P (BASE_multiply P a) c)) = Some (BASE_multiply P a)"
    and "Point_fromHex P (Str (slice_from (bytesToHex (Point_toRawBytes P (BASE_multiply P a) c)) 2))
           = Some (BASE_multiply P a)"
  using assms by (simp_all add: encoding_laws_def slice_from_2)

lemma getSharedSecret_encoded:
  assumes "encoding_laws P" and "validScalar P a" and "toPriv P k = Some b"
  shows "getSharedSecret P k (Point_toRawBytes P (BASE_multiply P a) c)
           = Inr (Point_toRawBytes P (Point_multiply P (BASE_multiply P a) b) True)"
  by (simp add: getSharedSecret_def encoded_key(2) [OF assms(1,2)] assms(3))

text \<open>The meta-address of a valid bundle, decoded: its two public keys.\<close>

lemma meta_of_valid:
  assumes enc: "encoding_laws P" and valid: "validStealthKey P b"
  shows "parseKeysFromStealthMetaAddress
           (generateStealthMetaAddressFromKeys (publicKey (spendingKey b)) (publicKey (viewingKey b)))
         = Inr \<lparr> viewingPublicKey = publicKey (viewingKey b),
                 spendingPublicKey = publicKey (spendingKey b) \<rparr>"
proof -
  from valid have "validKey P (spendingKey b)" and "validKey P (viewingKey b)"
    by (simp_all add: validStealthKey_def)
  then obtain ps s pv v where
    s: "toPriv P ps = Some s"
       "publicKey (spendingKey b) = bytesToHex (Point_toRawBytes P (BASE_multiply P s) True)" and
    v: "toPriv P pv = Some v"
       "publicKey (viewingKey b) = bytesToHex (Point_toRawBytes P (BASE_multiply P v) True)"
    by (meson validKeyD)
  have "length (publicKey (spendingKey b)) = 68"
    using encoded_key(1) [OF enc toPriv_SomeD(1) [OF s(1)]] by (simp add: s(2) length_bytesToHex)
  moreover have "take 2 (publicKey (spendingKey b)) = ''0x''" by (simp add: s(2) take2_bytesToHex)
  moreover have "take 2 (publicKey (viewingKey b)) = ''0x''" by (simp add: v(2) take2_bytesToHex)
  ultimately show ?thesis by (rule parse_generate)
qed

text \<open>What the sender computes for a valid viewing key, and what the recipient computes.\<close>

lemma generate_steps:
  assumes enc: "encoding_laws P" and v: "validScalar P v" and e: "toPriv P e = Some ek"
  shows "generateStealthAddress P e
           \<lparr> viewingPublicKey = bytesToHex (Point_toRawBytes P (BASE_multiply P v) True),
             spendingPublicKey = sp \<rparr>
         = (let hash = keccak256 P (Point_toRawBytes P (Point_multiply P (BASE_multiply P v) ek) True)
            in case getStealthPublicKey P sp hash of
                 Inl err \<Rightarrow> Inl err
               | Inr pk \<Rightarrow>
                   Inr \<lparr> stealthPublicKey = publicKeyToAddress P pk,
                         ephemeralPublicKey = bytesToHex (Point_toRawBytes P (BASE_multiply P ek) True),
                         viewTag = getViewTag hash \<rparr>)"
  by (simp add: generateStealthAddress_def getPublicKey_toPriv [OF e] encoded_key(3) [OF enc v]
      getSharedSecret_encoded [OF enc v e] Let_def)

lemma generate_needs_key:
  "generateStealthAddress P e m = Inr addr \<Longrightarrow> \<exists>ek. toPriv P e = Some ek"
  by (auto simp: generateStealthAddress_def getPublicKey_def fromPrivateKey_def
      split: option.splits)

lemma check_steps:
  assumes enc: "encoding_laws P" and ek: "validScalar P ek"
    and vk: "hexToBytes vpriv = Some vb" and v: "toPriv P vb = Some v"
  shows "checkStealthAddress P a (bytesToHex (Point_toRawBytes P (BASE_multiply P ek) True)) sp vpriv t
         = (let hash = keccak256 P (Point_toRawBytes P (Point_multiply P (BASE_multiply P ek) v) True)
            in if getViewTag hash \<noteq> t then Inr False
               else case getStealthPublicKey P sp hash of
                      Inl err \<Rightarrow> Inl err
                    | Inr pk \<Rightarrow> Inr (a = publicKeyToAddress P pk))"
  by (simp add: checkStealthAddress_def vk hexToBytes_bytesToHex
      getSharedSecret_encoded [OF enc ek v] Let_def)

lemma compute_steps:
  assumes order: "order_law P"
    and prefix: "take 2 (privateKey (spendingKey b)) = ''0x''"
    and a: "BigInt (privateKey (spendingKey b)) = Some a"
    and vk: "hexToBytes (privateKey (viewingKey b)) = Some vk"
    and ep: "hexToBytes epub = Some ep"
    and S: "getSharedSecret P vk ep = Inr S"
    and digest: "length (keccak_256 P S) = 32"
  defines "x \<equiv> (a + b2n (keccak_256 P S)) mod CURVE_n P"
  shows "computeStealthPrivateKey P b epub = Inr (''0x'' @ padStart (toString16 x) 64 (CHR ''0''))"
    and "0 \<le> x" and "x < CURVE_n P" and "x < 2 ^ 256"
proof -
  define h where "h = b2n (keccak_256 P S)"
  have n: "0 < CURVE_n P" "CURVE_n P \<le> 2 ^ 256" using order by (simp_all add: order_law_def)
  have hB: "BigInt (keccak256 P S) = Some h"
    unfolding keccak256_def h_def using digest by (intro BigInt_bytesToHex) auto
  have a0: "0 \<le> a" using BigInt_Hex_nonneg [OF prefix a] .
  have h0: "0 \<le> h"
    using BigInt_Hex_nonneg [OF _ hB] by (simp add: keccak256_def take2_bytesToHex)
  have add: "addPriv P a h = Some x"
    using a0 h0 n(1) by (simp add: addPriv_def x_def h_def js_rem_nonneg)
  show x0: "0 \<le> x" and xn: "x < CURVE_n P" using n(1) by (simp_all add: x_def)
  then show "x < 2 ^ 256" using n(2) by simp
  show "computeStealthPrivateKey P b epub = Inr (''0x'' @ padStart (toString16 x) 64 (CHR ''0''))"
    by (simp add: computeStealthPrivateKey_def vk ep S a hB add)
qed

lemma getStealthPublicKey_valid:
  assumes enc: "encoding_laws P" and a: "validScalar P a"
    and pk: "getStealthPublicKey P (bytesToHex (Point_toRawBytes P (BASE_multiply P a) True))
               (keccak256 P S) = Inr pk"
  obtains h where "toPriv P (keccak_256 P S) = Some h"
    and "pk = bytesToHex (Point_toRawBytes P
                 (Point_add P (BASE_multiply P a) (BASE_multiply P h)) False)"
  using pk
  by (auto simp: getStealthPublicKey_def keccak256_def hexToBytes_bytesToHex fromPrivateKey_def
      encoded_key(3) [OF enc a] split: option.splits)

section \<open>The small instance evaluated\<close>

lemma toy_valid: "validStealthKey toyCurve toyKeys"
  by code_simp

lemma toy_meta:
  "parseKeysFromStealthMetaAddress
     (generateStealthMetaAddressFromKeys
        (publicKey (spendingKey toyKeys)) (publicKey (viewingKey toyKeys))) = Inr toyMeta"
  by code_simp

lemma toy_generate: "generateStealthAddress toyCurve toyEphemeral toyMeta = Inr toyAddress"
  by code_simp

lemma toy_derive: "generateStealthKeyFromSignature toyCurve toySignature = Inr toyKeys"
  by code_simp

lemma toy_p1: "hexToBytes (''0x'' @ portion1 (extractPortions toySignature)) = Some (replicate 32 31)"
  by code_simp

lemma toy_p2: "hexToBytes (''0x'' @ portion2 (extractPortions toySignature)) = Some (replicate 32 163)"
  by code_simp

lemma toy_s: "toPriv toyCurve (keccak_256 toyCurve (replicate 32 31)) = Some 248"
  by code_simp

lemma toy_v: "toPriv toyCurve (keccak_256 toyCurve (replicate 32 163)) = Some 82"
  by code_simp

lemma toy_recovered:
  "computeStealthPrivateKey toyCurve toyKeys (ephemeralPublicKey toyAddress)
     = Inr ''0x0000000000000000000000000000000000000000000000000000000000000074''"
  by code_simp

lemma toy_recovered_bytes:
  "hexToBytes ''0x0000000000000000000000000000000000000000000000000000000000000074''
     = Some (replicate 31 0 @ [116])"
  by code_simp

lemma toy_recovered_value: "b2n (replicate 31 0 @ [116]) = 116"
  by code_simp

lemma toy_text_keys:
  "(let k = keccak_256 toyCurve (stringToBytes (''0x'' @ replicate 64 (CHR ''z'')))
    in case getPublicKey toyCurve k True of
         None \<Rightarrow> Inl ScalarOutOfRange
       | Some pub \<Rightarrow>
           Inr \<lparr> viewingKey = \<lparr> publicKey = bytesToHex pub, privateKey = bytesToHex k \<rparr>,
                 spendingKey = \<lparr> publicKey = bytesToHex pub, privateKey = bytesToHex k \<rparr> \<rparr>)
   = Inr \<lparr> viewingKey =
             \<lparr> publicKey = ''0x0200000000000000000000000000000000000000000000000000000000000000bb'',
               privateKey = ''0x00000000000000000000000000000000000000000000000000000000000000bb'' \<rparr>,
           spendingKey =
             \<lparr> publicKey = ''0x0200000000000000000000000000000000000000000000000000000000000000bb'',
               privateKey = ''0x00000000000000000000000000000000000000000000000000000000000000bb'' \<rparr> \<rparr>"
  by code_simp

section \<open>The second instance evaluated\<close>











section \<open>Claims on the meta-address codec and the seed guard\<close>

text \<open>
  C9. \<open>parseKeysFromStealthMetaAddress\<close> is total: on every string it returns,
  without error, the spending key \<open>0x\<close> followed by the characters 2 to 67 of the input
  and the viewing key \<open>0x\<close> followed by the characters from position 68 on. No length
  is rejected.
\<close>

theorem parse_total:
  "parseKeysFromStealthMetaAddress s =
     Inr \<lparr> viewingPublicKey = ''0x'' @ drop 68 s,
           spendingPublicKey = ''0x'' @ take 66 (drop 2 s) \<rparr>"
  by (simp add: parseKeysFromStealthMetaAddress_def slice_from_68 slice_2_68)

text \<open>
  C4, as stated, is that decoding fails with \<open>InvalidMetaAddressLength\<close> unless the
  input has 66 bytes. The source has no length check: the 2-byte input \<open>0x1234\<close> is
  decoded.
\<close>

theorem parse_no_length_check_counterexample:
  "length ''0x1234'' \<noteq> 134 \<and>
   parseKeysFromStealthMetaAddress ''0x1234''
     = Inr \<lparr> viewingPublicKey = ''0x'', spendingPublicKey = ''0x1234'' \<rparr>"
  by (simp add: parseKeysFromStealthMetaAddress_def slice_from_68 slice_2_68)

text \<open>
  C4, amended. Decoding never fails with \<open>InvalidMetaAddressLength\<close>, whatever the
  length of the input; on an input of exactly 66 bytes (\<open>0x\<close> and 132 characters) it
  returns two keys of 33 bytes each (\<open>0x\<close> and 66 characters).
\<close>

theorem parse_never_rejects:
  "parseKeysFromStealthMetaAddress s \<noteq> Inl InvalidMetaAddressLength \<and>
   (length s = 134 \<longrightarrow>
      (\<exists>m. parseKeysFromStealthMetaAddress s = Inr m \<and>
           length (spendingPublicKey m) = 68 \<and> length (viewingPublicKey m) = 68))"
  by (simp add: parseKeysFromStealthMetaAddress_def slice_from_68 slice_2_68)

theorem parse_never_rejects_witness:
  "length (''0x'' @ replicate 132 (CHR ''a'')) = 134 \<and>
   (\<exists>m. parseKeysFromStealthMetaAddress (''0x'' @ replicate 132 (CHR ''a'')) = Inr m \<and>
        length (spendingPublicKey m) = 68 \<and> length (viewingPublicKey m) = 68)"
  using parse_never_rejects [of "''0x'' @ replicate 132 (CHR ''a'')"] by simp

text \<open>
  C5. A signature whose length is not 132 characters (65 bytes), or whose segments
  \<open>0x\<close>, portion1, portion2 and lastByte do not concatenate to the input, makes
  \<open>generateStealthKeyFromSignature\<close> fail with \<open>MalformedSeed\<close>.
\<close>

theorem malformed_seed:
  assumes "length s \<noteq> 132 \<or> reassembled s \<noteq> s"
  shows "generateStealthKeyFromSignature P s = Inl MalformedSeed"
proof -
  from assms have "reassembled s \<noteq> s" using reassembled_length_132 by blast
  then show ?thesis by (rule generate_guard_fails)
qed

theorem malformed_seed_witness:
  "generateStealthKeyFromSignature toyCurve ''0x1234'' = Inl MalformedSeed \<and>
   generateStealthKeyFromSignature toyCurve (''1x'' @ replicate 130 (CHR ''a''))
     = Inl MalformedSeed"
proof -
  have a: "length ''0x1234'' \<noteq> 132 \<or> reassembled ''0x1234'' \<noteq> ''0x1234''" by simp
  have b: "length (''1x'' @ replicate 130 (CHR ''a'')) \<noteq> 132 \<or>
           reassembled (''1x'' @ replicate 130 (CHR ''a'')) \<noteq> ''1x'' @ replicate 130 (CHR ''a'')"
    by (simp add: guard_iff)
  show ?thesis
    using malformed_seed [where P = toyCurve, OF a] malformed_seed [where P = toyCurve, OF b]
    by simp
qed

text \<open>
  C6. Decoding the meta-address encoded from two compressed public keys \<open>s\<close> and
  \<open>v\<close> (each \<open>0x\<close> and 66 characters) returns \<open>s\<close> as the spending key and \<open>v\<close> as
  the viewing key. The proof needs the length of \<open>s\<close> and the prefix of both only.
\<close>

theorem meta_address_round_trip:
  assumes "length s = 68" and "take 2 s = ''0x''" and "take 2 v = ''0x''"
  shows "parseKeysFromStealthMetaAddress (generateStealthMetaAddressFromKeys s v)
           = Inr \<lparr> viewingPublicKey = v, spendingPublicKey = s \<rparr>"
  using assms by (rule parse_generate)

theorem meta_address_round_trip_witness:
  "parseKeysFromStealthMetaAddress
     (generateStealthMetaAddressFromKeys
        ''0x02f9230aabb043bda2e3044e93dd955d197343e0d15d5a5214c08ea7b5bcbae307''
        ''0x03a1b2c3d4e5f60718293a4b5c6d7e8f90a1b2c3d4e5f60718293a4b5c6d7e8f90'')
   = Inr \<lparr> viewingPublicKey =
             ''0x03a1b2c3d4e5f60718293a4b5c6d7e8f90a1b2c3d4e5f60718293a4b5c6d7e8f90'',
           spendingPublicKey =
             ''0x02f9230aabb043bda2e3044e93dd955d197343e0d15d5a5214c08ea7b5bcbae307'' \<rparr>"
  by (rule meta_address_round_trip) simp_all

text \<open>
  C10. The guard of \<open>generateStealthKeyFromSignature\<close> passes exactly when the input
  has 132 characters and starts with \<open>0x\<close>. It does not look at the other 130
  characters: \<open>0x\<close> followed by 130 times \<open>z\<close> is no hexadecimal string, passes the
  guard, and the operation goes on to derive both keys from the digest of the text
  \<open>0x\<close> and 64 times \<open>z\<close>.
\<close>

theorem seed_guard:
  "(generateStealthKeyFromSignature P s \<noteq> Inl MalformedSeed)
     = (length s = 132 \<and> take 2 s = ''0x'') \<and>
   \<not> isHex (''0x'' @ replicate 130 (CHR ''z'')) \<and>
   generateStealthKeyFromSignature P (''0x'' @ replicate 130 (CHR ''z'')) =
     (let k = keccak_256 P (stringToBytes (''0x'' @ replicate 64 (CHR ''z'')))
      in case getPublicKey P k True of
           None \<Rightarrow> Inl ScalarOutOfRange
         | Some pub \<Rightarrow>
             Inr \<lparr> viewingKey = \<lparr> publicKey = bytesToHex pub, privateKey = bytesToHex k \<rparr>,
                   spendingKey = \<lparr> publicKey = bytesToHex pub, privateKey = bytesToHex k \<rparr> \<rparr>)"
proof (intro conjI)
  show "(generateStealthKeyFromSignature P s \<noteq> Inl MalformedSeed)
     = (length s = 132 \<and> take 2 s = ''0x'')"
    using generate_guard_fails [of s P] generate_guard_passes [of s P] guard_iff [of s] by blast
  show "\<not> isHex (''0x'' @ replicate 130 (CHR ''z''))" using z_not_hex [of 130] by simp
  let ?s = "''0x'' @ replicate 130 (CHR ''z'')"
  have g: "reassembled ?s = ?s" by (simp add: guard_iff)
  have t: "toBytes (''0x'' @ replicate 64 (CHR ''z''))
             = stringToBytes (''0x'' @ replicate 64 (CHR ''z''))"
    using z_not_hex [of 64] by (simp add: toBytes_def)
  show "generateStealthKeyFromSignature P ?s =
     (let k = keccak_256 P (stringToBytes (''0x'' @ replicate 64 (CHR ''z'')))
      in case getPublicKey P k True of
           None \<Rightarrow> Inl ScalarOutOfRange
         | Some pub \<Rightarrow>
             Inr \<lparr> viewingKey = \<lparr> publicKey = bytesToHex pub, privateKey = bytesToHex k \<rparr>,
                   spendingKey = \<lparr> publicKey = bytesToHex pub, privateKey = bytesToHex k \<rparr> \<rparr>)"
    unfolding generate_after_guard [OF g] z_portions t Let_def
    by (simp split: option.splits)
qed

theorem seed_guard_witness:
  "generateStealthKeyFromSignature toyCurve (''0x'' @ replicate 130 (CHR ''z''))
   = Inr \<lparr> viewingKey =
             \<lparr> publicKey = ''0x0200000000000000000000000000000000000000000000000000000000000000bb'',
               privateKey = ''0x00000000000000000000000000000000000000000000000000000000000000bb'' \<rparr>,
           spendingKey =
             \<lparr> publicKey = ''0x0200000000000000000000000000000000000000000000000000000000000000bb'',
               privateKey = ''0x00000000000000000000000000000000000000000000000000000000000000bb'' \<rparr> \<rparr>"
  using seed_guard [where P = toyCurve] toy_text_keys by simp

section \<open>Claims on the protocol\<close>

text \<open>
  C1. For a valid key bundle, an address that \<open>generateStealthAddress\<close> produces from
  the bundle's meta-address (encoded and decoded as the program does) is accepted by
  \<open>checkStealthAddress\<close>, called with the produced address, ephemeral public key and
  view tag, the bundle's spending public key and its viewing private key: there is no
  false negative. The curve is any that encodes and decodes its public keys and on
  which Diffie-Hellman is symmetric.
\<close>

theorem generated_address_verifies:
  assumes enc: "encoding_laws P" and ecdh: "ecdh_law P"
    and valid: "validStealthKey P b"
    and meta: "parseKeysFromStealthMetaAddress
                 (generateStealthMetaAddressFromKeys
                    (publicKey (spendingKey b)) (publicKey (viewingKey b))) = Inr m"
    and gen: "generateStealthAddress P e m = Inr addr"
  shows "checkStealthAddress P (stealthPublicKey addr) (ephemeralPublicKey addr)
           (publicKey (spendingKey b)) (privateKey (viewingKey b)) (viewTag addr) = Inr True"
proof -
  from valid have "validKey P (viewingKey b)" by (simp add: validStealthKey_def)
  then obtain vb v where vb: "hexToBytes (privateKey (viewingKey b)) = Some vb"
    and v: "toPriv P vb = Some v"
    and vpub: "publicKey (viewingKey b) = bytesToHex (Point_toRawBytes P (BASE_multiply P v) True)"
    by (rule validKeyD)
  have m: "m = \<lparr> viewingPublicKey = bytesToHex (Point_toRawBytes P (BASE_multiply P v) True),
                 spendingPublicKey = publicKey (spendingKey b) \<rparr>"
    using meta meta_of_valid [OF enc valid] by (simp add: vpub)
  obtain ek where e: "toPriv P e = Some ek" using generate_needs_key [OF gen] by blast
  have vs: "validScalar P v" and es: "validScalar P ek"
    using toPriv_SomeD(1) v e by blast+
  have sym: "Point_multiply P (BASE_multiply P ek) v = Point_multiply P (BASE_multiply P v) ek"
    using ecdh vs es by (simp add: ecdh_law_def)
  define hash where
    "hash = keccak256 P (Point_toRawBytes P (Point_multiply P (BASE_multiply P v) ek) True)"
  from gen obtain pk where pk: "getStealthPublicKey P (publicKey (spendingKey b)) hash = Inr pk"
    and addr: "addr = \<lparr> stealthPublicKey = publicKeyToAddress P pk,
                        ephemeralPublicKey = bytesToHex (Point_toRawBytes P (BASE_multiply P ek) True),
                        viewTag = getViewTag hash \<rparr>"
    unfolding m generate_steps [OF enc vs e] hash_def [symmetric]
    by (auto simp: Let_def split: sum.splits)
  show ?thesis
    unfolding addr
    by (simp add: check_steps [OF enc es vb v] sym hash_def [symmetric] pk)
qed

theorem generated_address_verifies_witness:
  "checkStealthAddress toyCurve
     ''0x0000000000000000000000000000000000000074''
     ''0x020000000000000000000000000000000000000000000000000000000000000003''
     ''0x0200000000000000000000000000000000000000000000000000000000000000f8''
     ''0x0000000000000000000000000000000000000000000000000000000000000052''
     ''0x00'' = Inr True"
  using generated_address_verifies [OF toy_encoding toy_ecdh toy_valid toy_meta toy_generate]
  by (simp add: toyAddress_def toyKeys_def)

text \<open>
  C2. For a valid key bundle and an address generated from its meta-address, the
  scalar that \<open>computeStealthPrivateKey\<close> returns, times the generator, is the stealth
  public key that the address was made from (\<open>a * G + b * G = (a + b) * G\<close>), and
  the address is the address of that key. Where the scalar is not zero it is a private
  key, and the public key that the library derives from it is that same key.
\<close>

theorem recovered_key_matches:
  assumes enc: "encoding_laws P" and ecdh: "ecdh_law P"
    and add: "addition_law P" and order: "order_law P"
    and valid: "validStealthKey P b"
    and meta: "parseKeysFromStealthMetaAddress
                 (generateStealthMetaAddressFromKeys
                    (publicKey (spendingKey b)) (publicKey (viewingKey b))) = Inr m"
    and gen: "generateStealthAddress P e m = Inr addr"
  shows "\<exists>vk ep S sk bs pk.
           hexToBytes (privateKey (viewingKey b)) = Some vk \<and>
           hexToBytes (ephemeralPublicKey addr) = Some ep \<and>
           getSharedSecret P vk ep = Inr S \<and>
           getStealthPublicKey P (spendingPublicKey m) (keccak256 P S) = Inr pk \<and>
           stealthPublicKey addr = publicKeyToAddress P pk \<and>
           computeStealthPrivateKey P b (ephemeralPublicKey addr) = Inr sk \<and>
           hexToBytes sk = Some bs \<and>
           bytesToHex (Point_toRawBytes P (BASE_multiply P (b2n bs)) False) = pk \<and>
           (b2n bs \<noteq> 0 \<longrightarrow> publicKeyOf P sk = Inr pk)"
proof -
  from valid have "validKey P (viewingKey b)" and "validKey P (spendingKey b)"
    by (simp_all add: validStealthKey_def)
  then obtain vb v sb a where vb: "hexToBytes (privateKey (viewingKey b)) = Some vb"
    and v: "toPriv P vb = Some v"
    and vpub: "publicKey (viewingKey b) = bytesToHex (Point_toRawBytes P (BASE_multiply P v) True)"
    and sprefix: "take 2 (privateKey (spendingKey b)) = ''0x''"
    and sb: "hexToBytes (privateKey (spendingKey b)) = Some sb"
    and a: "toPriv P sb = Some a"
    and spub: "publicKey (spendingKey b) = bytesToHex (Point_toRawBytes P (BASE_multiply P a) True)"
    by (metis validKeyD)
  have m: "m = \<lparr> viewingPublicKey = bytesToHex (Point_toRawBytes P (BASE_multiply P v) True),
                 spendingPublicKey = bytesToHex (Point_toRawBytes P (BASE_multiply P a) True) \<rparr>"
    using meta meta_of_valid [OF enc valid] by (simp add: vpub spub)
  obtain ek where e: "toPriv P e = Some ek" using generate_needs_key [OF gen] by blast
  have vs: "validScalar P v" and es: "validScalar P ek" and as: "validScalar P a"
    using toPriv_SomeD(1) v e a by blast+
  have sym: "Point_multiply P (BASE_multiply P ek) v = Point_multiply P (BASE_multiply P v) ek"
    using ecdh vs es by (simp add: ecdh_law_def)
  define S where "S = Point_toRawBytes P (Point_multiply P (BASE_multiply P v) ek) True"
  define E where "E = Point_toRawBytes P (BASE_multiply P ek) True"
  from gen obtain pk where
    pk: "getStealthPublicKey P (bytesToHex (Point_toRawBytes P (BASE_multiply P a) True))
           (keccak256 P S) = Inr pk"
    and addr: "addr = \<lparr> stealthPublicKey = publicKeyToAddress P pk,
                        ephemeralPublicKey = bytesToHex E,
                        viewTag = getViewTag (keccak256 P S) \<rparr>"
    unfolding m generate_steps [OF enc vs e] S_def [symmetric] E_def [symmetric]
    by (auto simp: Let_def split: sum.splits)
  have ep: "hexToBytes (ephemeralPublicKey addr) = Some E"
    by (simp add: addr hexToBytes_bytesToHex)
  have sec: "getSharedSecret P vb E = Inr S"
    unfolding E_def S_def sym [symmetric] by (rule getSharedSecret_encoded [OF enc es v])
  obtain h where h: "toPriv P (keccak_256 P S) = Some h"
    and pkv: "pk = bytesToHex (Point_toRawBytes P
                     (Point_add P (BASE_multiply P a) (BASE_multiply P h)) False)"
    using getStealthPublicKey_valid [OF enc as pk] by blast
  have hs: "validScalar P h" and hv: "h = b2n (keccak_256 P S)"
    and hl: "length (keccak_256 P S) = 32"
    using toPriv_SomeD [OF h] by simp_all
  have "sb \<noteq> []" using toPriv_SomeD(3) [OF a] by auto
  then have aB: "BigInt (privateKey (spendingKey b)) = Some a"
    using BigInt_hexToBytes [OF sprefix sb] toPriv_SomeD(2) [OF a] by simp
  define x where "x = (a + b2n (keccak_256 P S)) mod CURVE_n P"
  define sk where "sk = ''0x'' @ padStart (toString16 x) 64 (CHR ''0'')"
  note c = compute_steps [OF order sprefix aB vb ep sec hl, folded x_def]
  have run: "computeStealthPrivateKey P b (ephemeralPublicKey addr) = Inr sk"
    using c(1) by (simp add: sk_def)
  obtain bs where bs: "hexToBytes sk = Some bs" "length bs = 32" "b2n bs = x"
    using scalar_hex(2) [OF c(2) c(4)] unfolding sk_def by blast
  have "Point_add P (BASE_multiply P a) (BASE_multiply P h) = BASE_multiply P x"
    using add as hs by (simp add: addition_law_def x_def hv)
  then have times: "bytesToHex (Point_toRawBytes P (BASE_multiply P (b2n bs)) False) = pk"
    by (simp add: pkv bs(3))
  have lib: "publicKeyOf P sk = Inr pk" if "b2n bs \<noteq> 0"
  proof -
    from that have "validScalar P x" using c(2,3) bs(3) by (simp add: validScalar_def)
    then have "toPriv P bs = Some x" using bs by (simp add: toPriv_def validScalar_def)
    then show ?thesis using times by (simp add: publicKeyOf_def bs(1,3) getPublicKey_toPriv)
  qed
  show ?thesis
    using vb ep sec pk run bs(1) times lib
    by (intro exI [of _ vb] exI [of _ E] exI [of _ S] exI [of _ sk] exI [of _ bs] exI [of _ pk])
       (simp add: m addr)
qed

theorem recovered_key_matches_witness:
  "\<exists>sk pk.
     computeStealthPrivateKey toyCurve toyKeys (ephemeralPublicKey toyAddress) = Inr sk \<and>
     publicKeyOf toyCurve sk = Inr pk \<and>
     stealthPublicKey toyAddress = publicKeyToAddress toyCurve pk"
proof -
  obtain sk bs pk where
    1: "computeStealthPrivateKey toyCurve toyKeys (ephemeralPublicKey toyAddress) = Inr sk"
    and 2: "hexToBytes sk = Some bs"
    and 3: "stealthPublicKey toyAddress = publicKeyToAddress toyCurve pk"
    and 4: "b2n bs \<noteq> 0 \<longrightarrow> publicKeyOf toyCurve sk = Inr pk"
    using recovered_key_matches [OF toy_encoding toy_ecdh toy_addition toy_order toy_valid
        toy_meta toy_generate]
    by blast
  have "sk = ''0x0000000000000000000000000000000000000000000000000000000000000074''"
    using 1 toy_recovered by simp
  then have "bs = replicate 31 0 @ [116]" using 2 toy_recovered_bytes by simp
  then have "b2n bs \<noteq> 0" using toy_recovered_value by simp
  then show ?thesis using 1 3 4 by blast
qed




text \<open>
  C7. \<open>computeStealthPrivateKey\<close> returns the scalar
  \<open>(spendingPrivateKey + Hash(sharedSecret)) mod n\<close> written as \<open>0x\<close> and exactly 64
  hexadecimal characters, which read big-endian give 32 bytes of that value; the value
  is in the range 0 .. n - 1. Here \<open>a\<close> is the spending private key as \<open>BigInt\<close>
  reads it and the hash is the digest of the shared secret read big-endian.
\<close>

theorem stealth_private_key_value:
  assumes order: "order_law P"
    and prefix: "take 2 (privateKey (spendingKey b)) = ''0x''"
    and a: "BigInt (privateKey (spendingKey b)) = Some a"
    and vk: "hexToBytes (privateKey (viewingKey b)) = Some vk"
    and ep: "hexToBytes epub = Some ep"
    and S: "getSharedSecret P vk ep = Inr S"
    and digest: "length (keccak_256 P S) = 32"
  shows "\<exists>sk bs.
           computeStealthPrivateKey P b epub = Inr sk \<and>
           sk = ''0x'' @ padStart (toString16 ((a + b2n (keccak_256 P S)) mod CURVE_n P)) 64
                          (CHR ''0'') \<and>
           length sk = 66 \<and>
           hexToBytes sk = Some bs \<and> length bs = 32 \<and>
           b2n bs = (a + b2n (keccak_256 P S)) mod CURVE_n P \<and>
           0 \<le> b2n bs \<and> b2n bs < CURVE_n P"
proof -
  define x where "x = (a + b2n (keccak_256 P S)) mod CURVE_n P"
  define sk where "sk = ''0x'' @ padStart (toString16 x) 64 (CHR ''0'')"
  note c = compute_steps [OF assms, folded x_def]
  obtain bs where "hexToBytes sk = Some bs" "length bs = 32" "b2n bs = x"
    using scalar_hex(2) [OF c(2) c(4)] unfolding sk_def by blast
  moreover have "length sk = 66" using scalar_hex(1) [OF c(2) c(4)] by (simp add: sk_def)
  ultimately have "computeStealthPrivateKey P b epub = Inr sk \<and>
      sk = ''0x'' @ padStart (toString16 x) 64 (CHR ''0'') \<and>
      length sk = 66 \<and> hexToBytes sk = Some bs \<and> length bs = 32 \<and>
      b2n bs = x \<and> 0 \<le> b2n bs \<and> b2n bs < CURVE_n P"
    using c by (simp add: sk_def)
  then show ?thesis unfolding x_def by blast
qed

theorem stealth_private_key_value_witness:
  "computeStealthPrivateKey toyCurve toyKeys
     ''0x020000000000000000000000000000000000000000000000000000000000000003''
   = Inr ''0x0000000000000000000000000000000000000000000000000000000000000074''"
proof -
  have 1: "take 2 (privateKey (spendingKey toyKeys)) = ''0x''" by code_simp
  have 2: "BigInt (privateKey (spendingKey toyKeys)) = Some 248" by code_simp
  have 3: "hexToBytes (privateKey (viewingKey toyKeys)) = Some (replicate 31 0 @ [82])"
    by code_simp
  have 4: "hexToBytes ''0x020000000000000000000000000000000000000000000000000000000000000003''
             = Some (2 # replicate 31 0 @ [3])" by code_simp
  have 5: "getSharedSecret toyCurve (replicate 31 0 @ [82]) (2 # replicate 31 0 @ [3])
             = Inr (2 # replicate 31 0 @ [246])" by code_simp
  have 6: "length (keccak_256 toyCurve (2 # replicate 31 0 @ [246])) = 32" by code_simp
  have 7: "''0x'' @ padStart (toString16 ((248 + b2n (keccak_256 toyCurve (2 # replicate 31 0 @ [246])))
              mod CURVE_n toyCurve)) 64 (CHR ''0'')
           = ''0x0000000000000000000000000000000000000000000000000000000000000074''"
    by code_simp
  show ?thesis using stealth_private_key_value [OF toy_order 1 2 3 4 5 6] unfolding 7 by blast
qed

text \<open>
  C8. A valid seed signature (132 characters with the prefix \<open>0x\<close>, two portions
  of hexadecimal digits whose digests are private keys) yields a bundle, and every call
  of \<open>generateStealthKeyFromSignature\<close> with that signature yields the same four
  strings: the operation reads the signature and the library functions only, no
  randomness and no state.
\<close>

theorem derivation_deterministic:
  assumes len: "length signature = 132" and prefix: "take 2 signature = ''0x''"
    and p1: "hexToBytes (''0x'' @ portion1 (extractPortions signature)) = Some p1"
    and p2: "hexToBytes (''0x'' @ portion2 (extractPortions signature)) = Some p2"
    and s: "toPriv P (keccak_256 P p1) = Some s"
    and v: "toPriv P (keccak_256 P p2) = Some v"
  shows "\<exists>b. generateStealthKeyFromSignature P signature = Inr b \<and>
             (\<forall>b'. generateStealthKeyFromSignature P signature = Inr b' \<longrightarrow>
                publicKey (spendingKey b') = publicKey (spendingKey b) \<and>
                privateKey (spendingKey b') = privateKey (spendingKey b) \<and>
                publicKey (viewingKey b') = publicKey (viewingKey b) \<and>
                privateKey (viewingKey b') = privateKey (viewingKey b))"
proof -
  have g: "reassembled signature = signature" using len prefix by (simp add: guard_iff)
  have "generateStealthKeyFromSignature P signature =
          Inr \<lparr> viewingKey =
                  \<lparr> publicKey = bytesToHex (Point_toRawBytes P (BASE_multiply P v) True),
                    privateKey = bytesToHex (keccak_256 P p2) \<rparr>,
                spendingKey =
                  \<lparr> publicKey = bytesToHex (Point_toRawBytes P (BASE_multiply P s) True),
                    privateKey = bytesToHex (keccak_256 P p1) \<rparr> \<rparr>"
    unfolding generate_after_guard [OF g] toBytes_hex [OF p1] toBytes_hex [OF p2] Let_def
    by (simp add: getPublicKey_toPriv [OF s] getPublicKey_toPriv [OF v])
  then show ?thesis by simp
qed

theorem derivation_deterministic_witness:
  "\<exists>b. generateStealthKeyFromSignature toyCurve toySignature = Inr b \<and>
       publicKey (spendingKey b) = publicKey (spendingKey toyKeys) \<and>
       privateKey (spendingKey b) = privateKey (spendingKey toyKeys) \<and>
       publicKey (viewingKey b) = publicKey (viewingKey toyKeys) \<and>
       privateKey (viewingKey b) = privateKey (viewingKey toyKeys)"
proof -
  have l: "length toySignature = 132" by code_simp
  have p: "take 2 toySignature = ''0x''" by code_simp
  show ?thesis
    using derivation_deterministic [OF l p toy_p1 toy_p2 toy_s toy_v] toy_derive by auto
qed

end
